theory Spec2Isabelle
  imports Complex_Main
begin

section \<open>Time values and the Date operations used by the helpers\<close>

text \<open>
  A JavaScript \<open>Date\<close> holds a time value: an integral number of milliseconds since
  1970-01-01T00:00:00Z, or NaN (an Invalid Date). A time value is modelled as an
  \<open>int\<close>, a Date as \<open>int option\<close> with \<open>None\<close> for the Invalid Date. The
  operations below are the abstract operations of ECMA-262 (section "Date Objects") that
  the Date methods called by \<open>getPeriodDates\<close> are defined by.

  The local time zone of the process is the implementation-defined \<open>LocalTZA(t, isUTC)\<close>:
  the offset of local time from UTC, in milliseconds, in force at the time value \<open>t\<close>,
  which is read as a UTC time when \<open>isUTC\<close> is true and as a local time otherwise. A
  zone with daylight saving has an offset that changes with \<open>t\<close>; \<open>fixedZone c\<close> is
  a zone whose offset is always \<open>c\<close>.
\<close>

type_synonym date = "int option"

type_synonym timeZone = "int \<Rightarrow> bool \<Rightarrow> int"

definition fixedZone :: "int \<Rightarrow> timeZone" where
  "fixedZone c = (\<lambda>t isUTC. c)"

definition msPerDay :: int where
  "msPerDay = 86400000"

definition maxTime :: int where
  "maxTime = 8640000000000000"

definition TimeClip :: "int \<Rightarrow> date" where
  "TimeClip t = (if abs t > maxTime then None else Some t)"

definition Day :: "int \<Rightarrow> int" where
  "Day t = t div msPerDay"

definition TimeWithinDay :: "int \<Rightarrow> int" where
  "TimeWithinDay t = t mod msPerDay"

definition DaysInYear :: "int \<Rightarrow> int" where
  "DaysInYear y =
     (if y mod 4 \<noteq> 0 then 365
      else if y mod 100 \<noteq> 0 then 366
      else if y mod 400 \<noteq> 0 then 365
      else 366)"

definition DayFromYear :: "int \<Rightarrow> int" where
  "DayFromYear y =
     365 * (y - 1970) + (y - 1969) div 4 - (y - 1901) div 100 + (y - 1601) div 400"

lemma div_step:
  fixes x k :: int
  assumes "0 < k"
  shows "(x + 1) div k = x div k + (if (x + 1) mod k = 0 then 1 else 0)"
proof (cases "(x + 1) mod k = 0")
  case True
  then have "k dvd (x + 1)" by (simp add: dvd_eq_mod_eq_0)
  then obtain q where q: "x + 1 = k * q" by (auto simp: dvd_def)
  then have x: "x = k * (q - 1) + (k - 1)" by (simp add: algebra_simps)
  have "x div k = q - 1"
    by (rule int_div_pos_eq [where r = "k - 1"]) (use x assms in auto)
  moreover have "(x + 1) div k = q" using q assms by simp
  ultimately show ?thesis using True by simp
next
  case False
  define r where "r = x mod k"
  have r: "0 \<le> r" "r < k" using assms by (simp_all add: r_def)
  have x: "x = k * (x div k) + r" by (simp add: r_def)
  have "r + 1 \<noteq> k"
  proof
    assume "r + 1 = k"
    then have "x + 1 = k * (x div k + 1)" using x by (simp add: algebra_simps)
    then have "(x + 1) mod k = 0" by (metis mod_mult_self1_is_0)
    with False show False by simp
  qed
  then have r1: "r + 1 < k" using r by simp
  have "(x + 1) div k = x div k"
    by (rule int_div_pos_eq [where r = "r + 1"]) (use x r r1 in auto)
  then show ?thesis using False by simp
qed

lemma mod_shift: "(y - k * c) mod k = y mod (k::int)"
  by (metis mod_mult_self1_is_0 mod_diff_right_eq diff_zero)

lemma DayFromYear_Suc: "DayFromYear (y + 1) = DayFromYear y + DaysInYear y"
proof -
  have a: "(y + 1 - 1969) div 4 = (y - 1969) div 4 + (if y mod 4 = 0 then 1 else 0)"
    using div_step [of 4 "y - 1969"] mod_shift [of y 4 492] by simp
  have b: "(y + 1 - 1901) div 100 = (y - 1901) div 100 + (if y mod 100 = 0 then 1 else 0)"
    using div_step [of 100 "y - 1901"] mod_shift [of y 100 19] by simp
  have c: "(y + 1 - 1601) div 400 = (y - 1601) div 400 + (if y mod 400 = 0 then 1 else 0)"
    using div_step [of 400 "y - 1601"] mod_shift [of y 400 4] by simp
  have d: "y mod 100 = 0 \<Longrightarrow> y mod 4 = 0"
    using dvd_trans [of 4 100 y] by (simp add: mod_eq_0_iff_dvd)
  have e: "y mod 400 = 0 \<Longrightarrow> y mod 100 = 0"
    using dvd_trans [of 100 400 y] by (simp add: mod_eq_0_iff_dvd)
  show ?thesis
    unfolding DayFromYear_def DaysInYear_def a b c
    using d e by auto
qed

lemma DaysInYear_bounds: "365 \<le> DaysInYear y \<and> DaysInYear y \<le> 366"
  by (simp add: DaysInYear_def)

lemma DayFromYear_pred: "DayFromYear (y - 1) = DayFromYear y - DaysInYear (y - 1)"
  using DayFromYear_Suc [of "y - 1"] by simp

text \<open>
  \<open>YearFromTime(t)\<close> is the largest year \<open>y\<close> with \<open>DayFromYear(y) \<le> Day(t)\<close>.
  It is found by a search that walks from a first estimate towards that year.
\<close>

function yearFromDay :: "int \<Rightarrow> int \<Rightarrow> int" where
  "yearFromDay d y =
     (if d < DayFromYear y then yearFromDay d (y - 1)
      else if DayFromYear (y + 1) \<le> d then yearFromDay d (y + 1)
      else y)"
  by pat_completeness auto
termination
proof (relation "measure (\<lambda>(d, y). if d < DayFromYear y
          then nat (DayFromYear y - d) + 366 else nat (d - DayFromYear y))")
  show "wf (measure (\<lambda>(d, y). if d < DayFromYear y
          then nat (DayFromYear y - d) + 366 else nat (d - DayFromYear y)))"
    by simp
next
  fix d y :: int
  assume "d < DayFromYear y"
  then show "((d, y - 1), (d, y)) \<in> measure (\<lambda>(d, y). if d < DayFromYear y
          then nat (DayFromYear y - d) + 366 else nat (d - DayFromYear y))"
    using DaysInYear_bounds [of "y - 1"] by (simp add: DayFromYear_pred) arith
next
  fix d y :: int
  assume "\<not> d < DayFromYear y" and "DayFromYear (y + 1) \<le> d"
  then show "((d, y + 1), (d, y)) \<in> measure (\<lambda>(d, y). if d < DayFromYear y
          then nat (DayFromYear y - d) + 366 else nat (d - DayFromYear y))"
    using DaysInYear_bounds [of y] by (simp add: DayFromYear_Suc)
qed

declare yearFromDay.simps [simp del]

definition YearFromTime :: "int \<Rightarrow> int" where
  "YearFromTime t = yearFromDay (Day t) (1970 + Day t div 366)"

definition InLeapYear :: "int \<Rightarrow> int" where
  "InLeapYear t = (if DaysInYear (YearFromTime t) = 366 then 1 else 0)"

definition DayWithinYear :: "int \<Rightarrow> int" where
  "DayWithinYear t = Day t - DayFromYear (YearFromTime t)"

text \<open>The day number, within its year, of the first day of month \<open>m\<close> (0 to 11).\<close>

definition monthStart :: "int \<Rightarrow> int \<Rightarrow> int" where
  "monthStart m leap =
     (if m \<le> 0 then 0
      else if m = 1 then 31
      else if m = 2 then 59 + leap
      else if m = 3 then 90 + leap
      else if m = 4 then 120 + leap
      else if m = 5 then 151 + leap
      else if m = 6 then 181 + leap
      else if m = 7 then 212 + leap
      else if m = 8 then 243 + leap
      else if m = 9 then 273 + leap
      else if m = 10 then 304 + leap
      else 334 + leap)"

definition MonthFromTime :: "int \<Rightarrow> int" where
  "MonthFromTime t =
     (let dwy = DayWithinYear t; leap = InLeapYear t in
      if dwy < 31 then 0
      else if dwy < 59 + leap then 1
      else if dwy < 90 + leap then 2
      else if dwy < 120 + leap then 3
      else if dwy < 151 + leap then 4
      else if dwy < 181 + leap then 5
      else if dwy < 212 + leap then 6
      else if dwy < 243 + leap then 7
      else if dwy < 273 + leap then 8
      else if dwy < 304 + leap then 9
      else if dwy < 334 + leap then 10
      else 11)"

definition DateFromTime :: "int \<Rightarrow> int" where
  "DateFromTime t = DayWithinYear t - monthStart (MonthFromTime t) (InLeapYear t) + 1"

definition WeekDay :: "int \<Rightarrow> int" where
  "WeekDay t = (Day t + 4) mod 7"

definition LocalTime :: "timeZone \<Rightarrow> int \<Rightarrow> int" where
  "LocalTime tz t = t + tz t True"

definition UTC :: "timeZone \<Rightarrow> int \<Rightarrow> int" where
  "UTC tz t = t - tz t False"

definition MakeTime :: "int \<Rightarrow> int \<Rightarrow> int \<Rightarrow> int \<Rightarrow> int" where
  "MakeTime hour minute sec ms = hour * 3600000 + minute * 60000 + sec * 1000 + ms"

definition MakeDay :: "int \<Rightarrow> int \<Rightarrow> int \<Rightarrow> int" where
  "MakeDay year month dt =
     (let ym = year + month div 12; mn = month mod 12 in
      DayFromYear ym + monthStart mn (if DaysInYear ym = 366 then 1 else 0) + dt - 1)"

definition MakeDate :: "int \<Rightarrow> int \<Rightarrow> int" where
  "MakeDate day time = day * msPerDay + time"

definition MakeFullYear :: "int \<Rightarrow> int" where
  "MakeFullYear y = (if 0 \<le> y \<and> y \<le> 99 then 1900 + y else y)"

text \<open>
  The Date methods. A setter on an Invalid Date leaves it invalid; a getter on it
  yields NaN, modelled as \<open>None\<close>.
\<close>

definition setHours :: "timeZone \<Rightarrow> date \<Rightarrow> int \<Rightarrow> int \<Rightarrow> int \<Rightarrow> int \<Rightarrow> date" where
  "setHours tz d h m s ms =
     (case d of None \<Rightarrow> None
      | Some t \<Rightarrow> TimeClip (UTC tz (MakeDate (Day (LocalTime tz t)) (MakeTime h m s ms))))"

definition setDate :: "timeZone \<Rightarrow> date \<Rightarrow> int option \<Rightarrow> date" where
  "setDate tz d dt =
     (case d of None \<Rightarrow> None
      | Some t \<Rightarrow>
         (case dt of None \<Rightarrow> None
          | Some n \<Rightarrow>
             (let l = LocalTime tz t in
              TimeClip (UTC tz (MakeDate (MakeDay (YearFromTime l) (MonthFromTime l) n)
                                          (TimeWithinDay l))))))"

definition getDay :: "timeZone \<Rightarrow> date \<Rightarrow> int option" where
  "getDay tz d = map_option (\<lambda>t. WeekDay (LocalTime tz t)) d"

definition getDate :: "timeZone \<Rightarrow> date \<Rightarrow> int option" where
  "getDate tz d = map_option (\<lambda>t. DateFromTime (LocalTime tz t)) d"

definition getFullYear :: "timeZone \<Rightarrow> date \<Rightarrow> int option" where
  "getFullYear tz d = map_option (\<lambda>t. YearFromTime (LocalTime tz t)) d"

definition getMonth :: "timeZone \<Rightarrow> date \<Rightarrow> int option" where
  "getMonth tz d = map_option (\<lambda>t. MonthFromTime (LocalTime tz t)) d"

text \<open>\<open>new Date(year, month, date, hours, minutes, seconds, ms)\<close>, in local time.\<close>

definition newDate :: "timeZone \<Rightarrow> int option \<Rightarrow> int option \<Rightarrow> int \<Rightarrow> int \<Rightarrow> int \<Rightarrow> int \<Rightarrow> int \<Rightarrow> date" where
  "newDate tz year month dt h m s ms =
     (case year of None \<Rightarrow> None
      | Some y \<Rightarrow>
         (case month of None \<Rightarrow> None
          | Some mo \<Rightarrow>
             TimeClip (UTC tz (MakeDate (MakeDay (MakeFullYear y) mo dt) (MakeTime h m s ms)))))"

section \<open>utils/helpers: getPeriodDates and calculatePagination\<close>

datatype error = InvalidPeriodType | CastError | ValidationError | AggregateError

text \<open>
  \<open>getPeriodDates(periodType, date = new Date())\<close>. The clock reading \<open>now\<close> stands
  for \<open>new Date()\<close>: it is the default reference date and the end of the all-time
  window. The default branch of the switch throws.
\<close>

definition getPeriodDates :: "timeZone \<Rightarrow> int \<Rightarrow> string \<Rightarrow> date option \<Rightarrow> error + (date \<times> date)" where
  "getPeriodDates tz now periodType date =
     (let refDate = (case date of None \<Rightarrow> Some now | Some d \<Rightarrow> d) in
      if periodType = ''daily'' then
        (let startDate = setHours tz refDate 0 0 0 0;
             endDate = setHours tz startDate 23 59 59 999
         in Inr (startDate, endDate))
      else if periodType = ''weekly'' then
        (let dayOfWeek = getDay tz refDate;
             diffToMonday = map_option (\<lambda>w. if w = 0 then - 6 else 1 - w) dayOfWeek;
             startDate = setDate tz refDate
                 (case (getDate tz refDate, diffToMonday) of
                    (Some a, Some b) \<Rightarrow> Some (a + b) | _ \<Rightarrow> None);
             startDate = setHours tz startDate 0 0 0 0;
             endDate = setDate tz startDate (map_option (\<lambda>a. a + 6) (getDate tz startDate));
             endDate = setHours tz endDate 23 59 59 999
         in Inr (startDate, endDate))
      else if periodType = ''monthly'' then
        (let startDate = newDate tz (getFullYear tz refDate) (getMonth tz refDate) 1 0 0 0 0;
             endDate = newDate tz (getFullYear tz refDate)
                         (map_option (\<lambda>m. m + 1) (getMonth tz refDate)) 0 23 59 59 999
         in Inr (startDate, endDate))
      else if periodType = ''yearly'' then
        (let startDate = newDate tz (getFullYear tz refDate) (Some 0) 1 0 0 0 0;
             endDate = newDate tz (getFullYear tz refDate) (Some 11) 31 23 59 59 999
         in Inr (startDate, endDate))
      else if periodType = ''all_time'' then
        Inr (Some 0, Some now)
      else Inl InvalidPeriodType)"


text \<open>
  \<open>calculatePagination(totalItems, page, limit)\<close>. \<open>Math.ceil(totalItems / limit)\<close>
  is not a finite number when \<open>limit\<close> is 0 (Infinity, or NaN for 0/0): \<open>totalPages\<close>
  is then \<open>None\<close>, and \<open>page < totalPages\<close> is true against Infinity and false
  against NaN.
\<close>

record pagination =
  page :: int
  limit :: int
  totalPages :: "int option"
  totalItems :: int
  hasNextPage :: bool
  hasPrevPage :: bool

definition calculatePagination :: "int \<Rightarrow> int \<Rightarrow> int \<Rightarrow> pagination" where
  "calculatePagination totalItems' page' limit' =
     (let totalPages' =
            (if limit' = 0 then None
             else Some (ceiling (real_of_int totalItems' / real_of_int limit')));
          hasNextPage' =
            (case totalPages' of None \<Rightarrow> 0 < totalItems' | Some tp \<Rightarrow> page' < tp);
          hasPrevPage' = (page' > 1)
      in \<lparr>page = page', limit = limit', totalPages = totalPages', totalItems = totalItems',
          hasNextPage = hasNextPage', hasPrevPage = hasPrevPage'\<rparr>)"

section \<open>utils/constants\<close>

definition DEFAULT_PAGE :: int where
  "DEFAULT_PAGE = 1"

definition DEFAULT_LIMIT :: int where
  "DEFAULT_LIMIT = 10"

definition MAX_LIMIT :: int where
  "MAX_LIMIT = 100"

section \<open>models/Run\<close>

text \<open>
  An ObjectId is a 12-byte value, compared bytewise: a natural number. A run document
  carries the fields the statistics and the leaderboards read; \<open>totalArea\<close> and
  \<open>area\<close> are optional (absent or null is \<open>None\<close>). Numbers are JavaScript doubles,
  idealised here as reals: rounding of sums and quotients is not modelled. A collection
  is the list of its documents in the order the store scans them.
\<close>

type_synonym objectId = nat

record run =
  userId :: objectId
  startTime :: int
  endTime :: int
  distance :: real
  duration :: real
  averageSpeed :: real
  maxSpeed :: real
  area :: "string option"
  totalArea :: "real option"
  isDeleted :: bool

text \<open>The \<open>min: 0\<close> validators of the run schema.\<close>

definition runValid :: "run \<Rightarrow> bool" where
  "runValid r \<longleftrightarrow>
     0 \<le> distance r \<and> 0 \<le> duration r \<and> 0 \<le> run.averageSpeed r \<and> 0 \<le> maxSpeed r"

text \<open>
  \<open>Run.find({ userId, isDeleted: false, startTime: { $gte: startDate, $lte: endDate } })\<close>
  for two valid Dates.
\<close>

definition Run_find :: "run list \<Rightarrow> objectId \<Rightarrow> int \<Rightarrow> int \<Rightarrow> run list" where
  "Run_find runs uid startDate endDate =
     filter (\<lambda>r. run.userId r = uid \<and> isDeleted r = False
                  \<and> startDate \<le> startTime r \<and> startTime r \<le> endDate) runs"

section \<open>services/runService: the leaderboards\<close>

text \<open>
  The aggregation pipelines run in the store. A \<open>$group\<close> stage emits one document
  per key; the store does not specify the order of its output, nor the order a \<open>$sort\<close>
  leaves among documents with equal sort keys. The model fixes one behaviour: groups are
  emitted in the order in which their keys first occur in the scan, and the sort is stable.
\<close>

definition groupKeys :: "'a list \<Rightarrow> 'a list" where
  "groupKeys ks = rev (remdups (rev ks))"

text \<open>
  The stages \<open>{ $skip: skip }, { $limit: limit }\<close>: the store rejects a negative skip
  and a limit that is not positive.
\<close>

definition skipLimit :: "int \<Rightarrow> int \<Rightarrow> 'a list \<Rightarrow> error + 'a list" where
  "skipLimit skip lmt xs =
     (if skip < 0 \<or> lmt \<le> 0 then Inl AggregateError
      else Inr (take (nat lmt) (drop (nat skip) xs)))"

text \<open>
  A document of the users collection, which \<open>$lookup\<close> reads by \<open>_id\<close>. The
  schema requires \<open>email\<close>, gives \<open>runColor\<close> a default and leaves \<open>username\<close>
  optional.
\<close>

record user =
  username :: "string option"
  email :: string
  runColor :: string

subsection \<open>getDistanceLeaderboard\<close>

text \<open>
  The documents the pipeline projects, and the entries of the response, which add the
  rank. The user fields are absent (\<open>None\<close>) when the owner has no user document:
  \<open>$unwind\<close> keeps such a group (\<open>preserveNullAndEmptyArrays\<close>).
\<close>

record distanceItem =
  userId :: objectId
  username :: "string option"
  email :: "string option"
  runColor :: "string option"
  totalDistance :: real
  totalRuns :: nat
  totalDuration :: real

record distanceRanked = distanceItem +
  rank :: int

text \<open>
  \<open>$match { isDeleted: false }\<close>, then \<open>$group\<close> by \<open>userId\<close> with the sums of
  distance and duration and the count: \<open>(_id, totalDistance, totalRuns, totalDuration)\<close>.
\<close>

definition distanceGroups :: "run list \<Rightarrow> (objectId \<times> real \<times> nat \<times> real) list" where
  "distanceGroups runs =
     (let matched = filter (\<lambda>r. isDeleted r = False) runs in
      map (\<lambda>u. let g = filter (\<lambda>r. run.userId r = u) matched
                in (u, sum_list (map distance g), length g, sum_list (map duration g)))
          (groupKeys (map run.userId matched)))"

text \<open>\<open>$sort { totalDistance: -1 }\<close>, \<open>$lookup\<close>, \<open>$unwind\<close> and \<open>$project\<close>.\<close>

definition distancePipeline :: "run list \<Rightarrow> (objectId \<rightharpoonup> user) \<Rightarrow> distanceItem list" where
  "distancePipeline runs users =
     map (\<lambda>(u, d, n, t).
            \<lparr>userId = u,
             username = (case users u of None \<Rightarrow> None | Some usr \<Rightarrow> user.username usr),
             email = map_option user.email (users u),
             runColor = map_option user.runColor (users u),
             totalDistance = d, totalRuns = n, totalDuration = t\<rparr>)
         (sort_key (\<lambda>(u, d, n, t). - d) (distanceGroups runs))"

text \<open>The count pipeline: \<open>$match\<close>, \<open>$group\<close> by \<open>userId\<close>, \<open>$count\<close>.\<close>

definition distanceCount :: "run list \<Rightarrow> int" where
  "distanceCount runs =
     int (length (groupKeys (map run.userId (filter (\<lambda>r. isDeleted r = False) runs))))"

definition distanceWithRank :: "int \<Rightarrow> distanceItem \<Rightarrow> distanceRanked" where
  "distanceWithRank k item =
     \<lparr>userId = distanceItem.userId item,
      username = distanceItem.username item,
      email = distanceItem.email item,
      runColor = distanceItem.runColor item,
      totalDistance = totalDistance item,
      totalRuns = totalRuns item,
      totalDuration = totalDuration item,
      rank = k\<rparr>"

text \<open>
  \<open>getDistanceLeaderboard({ page, limit })\<close>, the two options already parsed to
  integers (\<open>None\<close> when not given).
\<close>

definition getDistanceLeaderboard :: "run list \<Rightarrow> (objectId \<rightharpoonup> user) \<Rightarrow> int option \<Rightarrow> int option \<Rightarrow> error + (distanceRanked list \<times> pagination)" where
  "getDistanceLeaderboard runs users pageOpt limitOpt =
     (let pg = (case pageOpt of None \<Rightarrow> DEFAULT_PAGE | Some p \<Rightarrow> p);
          lmt = (case limitOpt of None \<Rightarrow> DEFAULT_LIMIT | Some l \<Rightarrow> l);
          cnt = distanceCount runs;
          skip = (pg - 1) * min lmt MAX_LIMIT
      in case skipLimit skip (min lmt MAX_LIMIT) (distancePipeline runs users) of
           Inl err \<Rightarrow> Inl err
         | Inr leaderboard \<Rightarrow>
             Inr (map (\<lambda>(index, item). distanceWithRank (skip + int index + 1) item)
                      (enumerate 0 leaderboard),
                  calculatePagination cnt pg lmt))"

subsection \<open>getAreaLeaderboard\<close>

record areaItem =
  userId :: objectId
  username :: "string option"
  email :: string
  totalAreaCovered :: real
  totalRuns :: nat
  totalDistance :: real
  averageArea :: real

record areaRanked = areaItem +
  rank :: int

text \<open>\<open>$match { isDeleted: false, totalArea: { $ne: null, $gt: 0 } }\<close>.\<close>

definition areaMatch :: "run \<Rightarrow> bool" where
  "areaMatch r \<longleftrightarrow>
     isDeleted r = False \<and> (case totalArea r of None \<Rightarrow> False | Some a \<Rightarrow> a > 0)"

text \<open>The value \<open>$sum\<close> adds for \<open>'$totalArea'\<close>: 0 when the field is absent.\<close>

definition areaOf :: "run \<Rightarrow> real" where
  "areaOf r = (case totalArea r of None \<Rightarrow> 0 | Some a \<Rightarrow> a)"

text \<open>
  \<open>$group\<close> by \<open>userId\<close>: \<open>(_id, totalAreaCovered, totalRuns, totalDistance)\<close>.
\<close>

definition areaGroups :: "run list \<Rightarrow> (objectId \<times> real \<times> nat \<times> real) list" where
  "areaGroups runs =
     (let matched = filter areaMatch runs in
      map (\<lambda>u. let g = filter (\<lambda>r. run.userId r = u) matched
                in (u, sum_list (map areaOf g), length g, sum_list (map distance g)))
          (groupKeys (map run.userId matched)))"

text \<open>
  \<open>$sort { totalAreaCovered: -1 }\<close>, \<open>$lookup\<close>, \<open>$unwind\<close> (which drops a group
  whose owner has no user document) and \<open>$project\<close>.
\<close>

definition areaPipeline :: "run list \<Rightarrow> (objectId \<rightharpoonup> user) \<Rightarrow> areaItem list" where
  "areaPipeline runs users =
     List.map_filter
       (\<lambda>(u, a, n, d).
          (case users u of
             None \<Rightarrow> None
           | Some usr \<Rightarrow>
               Some \<lparr>userId = u, username = user.username usr, email = user.email usr,
                     totalAreaCovered = a, totalRuns = n, totalDistance = d,
                     averageArea = a / real n\<rparr>))
       (sort_key (\<lambda>(u, a, n, d). - a) (areaGroups runs))"

definition areaCount :: "run list \<Rightarrow> int" where
  "areaCount runs = int (length (groupKeys (map run.userId (filter areaMatch runs))))"

definition areaWithRank :: "int \<Rightarrow> areaItem \<Rightarrow> areaRanked" where
  "areaWithRank k item =
     \<lparr>userId = areaItem.userId item,
      username = areaItem.username item,
      email = areaItem.email item,
      totalAreaCovered = totalAreaCovered item,
      totalRuns = totalRuns item,
      totalDistance = totalDistance item,
      averageArea = averageArea item,
      rank = k\<rparr>"

definition getAreaLeaderboard :: "run list \<Rightarrow> (objectId \<rightharpoonup> user) \<Rightarrow> int option \<Rightarrow> int option \<Rightarrow> error + (areaRanked list \<times> pagination)" where
  "getAreaLeaderboard runs users pageOpt limitOpt =
     (let pg = (case pageOpt of None \<Rightarrow> DEFAULT_PAGE | Some p \<Rightarrow> p);
          lmt = (case limitOpt of None \<Rightarrow> DEFAULT_LIMIT | Some l \<Rightarrow> l);
          cnt = areaCount runs;
          skip = (pg - 1) * min lmt MAX_LIMIT
      in case skipLimit skip (min lmt MAX_LIMIT) (areaPipeline runs users) of
           Inl err \<Rightarrow> Inl err
         | Inr leaderboard \<Rightarrow>
             Inr (map (\<lambda>(index, item). areaWithRank (skip + int index + 1) item)
                      (enumerate 0 leaderboard),
                  calculatePagination cnt pg lmt))"

section \<open>models/Stats\<close>

text \<open>
  The values computed by \<open>calculateStats\<close> (\<open>statsData\<close>), and a document of the
  \<open>stats\<close> collection. The schema option \<open>timestamps: true\<close> gives every document
  the fields \<open>createdAt\<close>, set when the document is inserted, and \<open>updatedAt\<close>, set
  by every update; the plain object that \<open>calculateStats\<close> returns for an empty
  selection has neither (\<open>None\<close>). The generated \<open>_id\<close> and the version key
  \<open>__v\<close>, which are set when the document is inserted and which no update of
  \<open>updateOrCreateStats\<close> changes, are left out.
\<close>

record statsData =
  totalDistance :: real
  totalDuration :: real
  totalRuns :: nat
  averageSpeed :: real
  longestRun :: real
  longestDuration :: real
  fastestSpeed :: real

record stats = statsData +
  userId :: objectId
  periodType :: string
  periodStart :: int
  periodEnd :: int
  createdAt :: "int option"
  updatedAt :: "int option"

text \<open>The query \<open>{ userId, periodType, periodStart }\<close> of \<open>updateOrCreateStats\<close>.\<close>

definition statsQuery :: "objectId \<Rightarrow> string \<Rightarrow> int \<Rightarrow> stats \<Rightarrow> bool" where
  "statsQuery uid pt ps row \<longleftrightarrow>
     stats.userId row = uid \<and> periodType row = pt \<and> periodStart row = ps"

text \<open>
  The update \<open>{ $set: { periodEnd, totalDistance, ..., fastestSpeed } }\<close>, to which
  the timestamps option adds \<open>updatedAt\<close>, the clock reading \<open>now\<close> of the call.
\<close>

definition statsUpdate :: "int \<Rightarrow> int \<Rightarrow> statsData \<Rightarrow> stats \<Rightarrow> stats" where
  "statsUpdate now pe d row =
     row\<lparr>periodEnd := pe,
         totalDistance := totalDistance d,
         totalDuration := totalDuration d,
         totalRuns := totalRuns d,
         averageSpeed := statsData.averageSpeed d,
         longestRun := longestRun d,
         longestDuration := longestDuration d,
         fastestSpeed := fastestSpeed d,
         updatedAt := Some now\<rparr>"

text \<open>\<open>runValidators: true\<close>: the \<open>min: 0\<close> validators of the paths that are set.\<close>

definition statsValid :: "statsData \<Rightarrow> bool" where
  "statsValid d \<longleftrightarrow>
     0 \<le> totalDistance d \<and> 0 \<le> totalDuration d \<and> 0 \<le> statsData.averageSpeed d
     \<and> 0 \<le> longestRun d \<and> 0 \<le> longestDuration d \<and> 0 \<le> fastestSpeed d"

text \<open>
  \<open>findOneAndUpdate(query, update, { new: true })\<close> on a collection: the first document
  that matches is updated in place and returned as updated; \<open>None\<close> when no document
  matches.
\<close>

fun findOneAndUpdate :: "(stats \<Rightarrow> bool) \<Rightarrow> (stats \<Rightarrow> stats) \<Rightarrow> stats list \<Rightarrow> (stats \<times> stats list) option" where
  "findOneAndUpdate q u [] = None"
| "findOneAndUpdate q u (r # rs) =
     (if q r then Some (u r, u r # rs)
      else (case findOneAndUpdate q u rs of
              None \<Rightarrow> None
            | Some (doc, rs') \<Rightarrow> Some (doc, r # rs')))"

text \<open>
  The document made of the fields of the query and of the update, with the given
  \<open>createdAt\<close> and with \<open>updatedAt\<close> the clock reading \<open>now\<close>.
\<close>

definition statsDoc :: "objectId \<Rightarrow> string \<Rightarrow> int \<Rightarrow> int \<Rightarrow> statsData \<Rightarrow> int option \<Rightarrow> int \<Rightarrow> stats" where
  "statsDoc uid pt ps pe d created now =
     \<lparr>totalDistance = totalDistance d,
      totalDuration = totalDuration d,
      totalRuns = totalRuns d,
      averageSpeed = statsData.averageSpeed d,
      longestRun = longestRun d,
      longestDuration = longestDuration d,
      fastestSpeed = fastestSpeed d,
      userId = uid, periodType = pt, periodStart = ps, periodEnd = pe,
      createdAt = created, updatedAt = Some now\<rparr>"

text \<open>
  \<open>Stats.updateOrCreateStats(userId, periodType, periodStart, periodEnd, statsData)\<close>
  at the clock reading \<open>now\<close>, with \<open>upsert: true\<close>: when no document matches, one is
  inserted with the fields of the query and of the update and with \<open>createdAt\<close> the
  clock reading. It returns the document and the collection after the write.
\<close>

definition updateOrCreateStats :: "int \<Rightarrow> stats list \<Rightarrow> objectId \<Rightarrow> string \<Rightarrow> int \<Rightarrow> int \<Rightarrow> statsData \<Rightarrow> (error + stats) \<times> stats list" where
  "updateOrCreateStats now store uid pt ps pe d =
     (if \<not> statsValid d then (Inl ValidationError, store)
      else
        (case findOneAndUpdate (statsQuery uid pt ps) (statsUpdate now pe d) store of
           Some (doc, store') \<Rightarrow> (Inr doc, store')
         | None \<Rightarrow> (Inr (statsDoc uid pt ps pe d (Some now) now),
                     store @ [statsDoc uid pt ps pe d (Some now) now])))"

text \<open>\<open>Stats.deleteMany({ userId })\<close>, called when a user's data is removed.\<close>

definition Stats_deleteMany :: "stats list \<Rightarrow> objectId \<Rightarrow> stats list" where
  "Stats_deleteMany store uid = filter (\<lambda>row. stats.userId row \<noteq> uid) store"

section \<open>services/statsService: calculateStats\<close>

text \<open>\<open>Math.max(x, ...xs)\<close> on at least one argument.\<close>

definition Math_max :: "real \<Rightarrow> real list \<Rightarrow> real" where
  "Math_max x xs = fold max xs x"

text \<open>
  \<open>calculateStats(userId, periodType, refDate = new Date())\<close> over the runs collection
  and the stats collection. The clock is read twice: \<open>now\<close> is the reading of
  \<open>new Date()\<close> (the default reference date and the end of the \<open>all_time\<close> window),
  \<open>wnow\<close> the later reading at which the store stamps the upsert. It returns its
  result and the stats collection afterwards. An Invalid Date in the filter of
  \<open>Run.find\<close> fails with a CastError.
\<close>

definition calculateStats :: "timeZone \<Rightarrow> int \<Rightarrow> int \<Rightarrow> run list \<Rightarrow> stats list \<Rightarrow> objectId \<Rightarrow> string \<Rightarrow> date option \<Rightarrow> (error + stats) \<times> stats list" where
  "calculateStats tz now wnow runs store uid pt refDate =
     (case getPeriodDates tz now pt (Some (case refDate of None \<Rightarrow> Some now | Some d \<Rightarrow> d)) of
        Inl err \<Rightarrow> (Inl err, store)
      | Inr (None, _) \<Rightarrow> (Inl CastError, store)
      | Inr (Some startDate, None) \<Rightarrow> (Inl CastError, store)
      | Inr (Some startDate, Some endDate) \<Rightarrow>
         (case Run_find runs uid startDate endDate of
            [] \<Rightarrow>
             (Inr \<lparr>totalDistance = 0, totalDuration = 0, totalRuns = 0, averageSpeed = 0,
                   longestRun = 0, longestDuration = 0, fastestSpeed = 0,
                   userId = uid, periodType = pt,
                   periodStart = startDate, periodEnd = endDate,
                   createdAt = None, updatedAt = None\<rparr>, store)
          | r # rs \<Rightarrow>
             (let totalDistance' = foldl (\<lambda>sum x. sum + distance x) 0 (r # rs);
                  totalDuration' = foldl (\<lambda>sum x. sum + duration x) 0 (r # rs);
                  totalRuns' = length (r # rs);
                  averageSpeed' = (if totalDuration' > 0
                                   then (totalDistance' / totalDuration') * 3.6 else 0);
                  longestRun' = Math_max (distance r) (map distance rs);
                  longestDuration' = Math_max (duration r) (map duration rs);
                  fastestSpeed' = Math_max (run.averageSpeed r) (map run.averageSpeed rs)
              in updateOrCreateStats wnow store uid pt startDate endDate
                   \<lparr>totalDistance = totalDistance', totalDuration = totalDuration',
                    totalRuns = totalRuns', averageSpeed = averageSpeed',
                    longestRun = longestRun', longestDuration = longestDuration',
                    fastestSpeed = fastestSpeed'\<rparr>)))"

section \<open>Calendar facts\<close>

lemma LocalTime_fixed: "LocalTime (fixedZone c) t = t + c"
  by (simp add: LocalTime_def fixedZone_def)

lemma UTC_fixed: "UTC (fixedZone c) t = t - c"
  by (simp add: UTC_def fixedZone_def)

lemma yearFromDay_correct:
  "DayFromYear (yearFromDay d y) \<le> d \<and> d < DayFromYear (yearFromDay d y + 1)"
proof (induction d y rule: yearFromDay.induct)
  case (1 d y)
  show ?case
  proof (cases "d < DayFromYear y")
    case True
    with "1.IH"(1) show ?thesis by (subst (1 2) yearFromDay.simps) simp
  next
    case False
    show ?thesis
    proof (cases "DayFromYear (y + 1) \<le> d")
      case True
      with False "1.IH"(2) show ?thesis by (subst (1 2) yearFromDay.simps) simp
    next
      case F2: False
      with False show ?thesis by (subst (1 2) yearFromDay.simps) simp
    qed
  qed
qed

lemma year_bounds:
  "DayFromYear (YearFromTime t) \<le> Day t \<and> Day t < DayFromYear (YearFromTime t) + DaysInYear (YearFromTime t)"
  using yearFromDay_correct [of "Day t" "1970 + Day t div 366"]
  by (simp add: YearFromTime_def DayFromYear_Suc)

lemma DayWithinYear_bounds:
  "0 \<le> DayWithinYear t \<and> DayWithinYear t < 365 + InLeapYear t"
  using year_bounds [of t] DaysInYear_bounds [of "YearFromTime t"]
  by (auto simp: DayWithinYear_def InLeapYear_def)

lemma InLeapYear_cases: "InLeapYear t = 0 \<or> InLeapYear t = 1"
  by (simp add: InLeapYear_def)

lemma MonthFromTime_range: "0 \<le> MonthFromTime t \<and> MonthFromTime t \<le> 11"
  by (simp add: MonthFromTime_def Let_def)

text \<open>Length in days of month \<open>m\<close> (0 to 11) of a year, \<open>leap\<close> being 1 in a leap year.\<close>

definition daysInMonth :: "int \<Rightarrow> int \<Rightarrow> int" where
  "daysInMonth m leap =
     (if m = 1 then 28 + leap
      else if m = 3 \<or> m = 5 \<or> m = 8 \<or> m = 10 then 30
      else 31)"

lemma month_bounds:
  "monthStart (MonthFromTime t) (InLeapYear t) \<le> DayWithinYear t \<and>
   DayWithinYear t < monthStart (MonthFromTime t) (InLeapYear t) + daysInMonth (MonthFromTime t) (InLeapYear t)"
  using DayWithinYear_bounds [of t] InLeapYear_cases [of t]
  by (auto simp: MonthFromTime_def Let_def monthStart_def daysInMonth_def)

lemma MakeDay_roundtrip:
  "MakeDay (YearFromTime l) (MonthFromTime l) (DateFromTime l + k) = Day l + k"
proof -
  have m: "MonthFromTime l div 12 = 0" "MonthFromTime l mod 12 = MonthFromTime l"
    using MonthFromTime_range [of l] by simp_all
  show ?thesis
    by (simp add: MakeDay_def Let_def m DateFromTime_def DayWithinYear_def InLeapYear_def)
qed


lemma Day_decomp: "Day t * msPerDay + TimeWithinDay t = t"
  by (simp add: Day_def TimeWithinDay_def)

lemma TimeWithinDay_bounds: "0 \<le> TimeWithinDay t \<and> TimeWithinDay t < msPerDay"
  by (simp add: TimeWithinDay_def msPerDay_def)

lemma Day_MakeDate: "0 \<le> r \<Longrightarrow> r < msPerDay \<Longrightarrow> Day (MakeDate d r) = d"
  unfolding Day_def MakeDate_def
  by (rule int_div_pos_eq [where r = r]) (simp_all add: algebra_simps)

lemma TimeWithinDay_MakeDate: "0 \<le> r \<Longrightarrow> r < msPerDay \<Longrightarrow> TimeWithinDay (MakeDate d r) = r"
  unfolding TimeWithinDay_def MakeDate_def
  by (rule int_mod_pos_eq [where q = d]) (simp_all add: algebra_simps)

lemma TimeClip_ok: "abs t \<le> maxTime \<Longrightarrow> TimeClip t = Some t"
  by (simp add: TimeClip_def)

lemma setHours_Some:
  assumes "abs (MakeDate (Day (t + tza)) (MakeTime h m s ms) - tza) \<le> maxTime"
  shows "setHours (fixedZone tza) (Some t) h m s ms = Some (MakeDate (Day (t + tza)) (MakeTime h m s ms) - tza)"
  using assms by (simp add: setHours_def LocalTime_fixed UTC_fixed TimeClip_def)

lemma setDate_shift:
  assumes "abs (t + k * msPerDay) \<le> maxTime"
  shows "setDate (fixedZone tza) (Some t) (Some (DateFromTime (t + tza) + k)) = Some (t + k * msPerDay)"
proof -
  have "MakeDate (Day (t + tza) + k) (TimeWithinDay (t + tza)) - tza = t + k * msPerDay"
    using Day_decomp [of "t + tza"] by (simp add: MakeDate_def algebra_simps)
  then show ?thesis
    using assms
    by (simp add: setDate_def LocalTime_fixed UTC_fixed Let_def MakeDay_roundtrip TimeClip_def)
qed

text \<open>The time value of local midnight at the start of day number \<open>d\<close>.\<close>

definition dayStart :: "int \<Rightarrow> int \<Rightarrow> int" where
  "dayStart tza d = d * msPerDay - tza"

lemma dayStart_le: "dayStart tza (Day (t + tza)) \<le> t \<and> t < dayStart tza (Day (t + tza)) + msPerDay"
  using Day_decomp [of "t + tza"] TimeWithinDay_bounds [of "t + tza"]
  by (simp add: dayStart_def)

lemma Day_dayStart: "Day (dayStart tza d + tza) = d"
  using Day_MakeDate [of 0 d] by (simp add: dayStart_def MakeDate_def msPerDay_def)

lemma setHours_start:
  assumes "abs (dayStart tza (Day (t + tza))) \<le> maxTime"
  shows "setHours (fixedZone tza) (Some t) 0 0 0 0 = Some (dayStart tza (Day (t + tza)))"
  using assms by (simp add: setHours_def LocalTime_fixed UTC_fixed TimeClip_def MakeDate_def MakeTime_def dayStart_def)

lemma setHours_end:
  assumes "abs (dayStart tza (Day (t + tza)) + msPerDay - 1) \<le> maxTime"
  shows "setHours (fixedZone tza) (Some t) 23 59 59 999 = Some (dayStart tza (Day (t + tza)) + msPerDay - 1)"
  using assms by (simp add: setHours_def LocalTime_fixed UTC_fixed TimeClip_def MakeDate_def MakeTime_def dayStart_def msPerDay_def)

lemma daily_window:
  assumes "abs ref + msPerDay \<le> maxTime"
  shows "getPeriodDates (fixedZone tza) now ''daily'' (Some (Some ref)) =
           Inr (Some (dayStart tza (Day (ref + tza))), Some (dayStart tza (Day (ref + tza)) + msPerDay - 1))"
proof -
  define s where "s = dayStart tza (Day (ref + tza))"
  have b: "s \<le> ref" "ref < s + msPerDay"
    using dayStart_le [of tza ref] by (simp_all add: s_def)
  have 1: "setHours (fixedZone tza) (Some ref) 0 0 0 0 = Some s"
    unfolding s_def using b assms by (intro setHours_start) (simp add: s_def msPerDay_def)
  have 2: "setHours (fixedZone tza) (Some s) 23 59 59 999 = Some (s + msPerDay - 1)"
    using setHours_end [of tza s] b assms by (simp add: s_def Day_dayStart msPerDay_def)
  show ?thesis
    by (simp add: getPeriodDates_def Let_def 1 2 flip: s_def)
qed

text \<open>The shift, in days, from a day of the week (Sunday = 0) back to its Monday.\<close>

definition diffToMonday :: "int \<Rightarrow> int" where
  "diffToMonday w = (if w = 0 then - 6 else 1 - w)"

lemma diffToMonday_range: "- 6 \<le> diffToMonday (WeekDay t) \<and> diffToMonday (WeekDay t) \<le> 0"
  by (simp add: diffToMonday_def WeekDay_def) presburger

lemma weekly_window:
  assumes "abs ref + 7 * msPerDay \<le> maxTime"
  shows "getPeriodDates (fixedZone tza) now ''weekly'' (Some (Some ref)) =
           Inr (Some (dayStart tza (Day (ref + tza) + diffToMonday (WeekDay (ref + tza)))),
                Some (dayStart tza (Day (ref + tza) + diffToMonday (WeekDay (ref + tza))) + 7 * msPerDay - 1))"
proof -
  define k where "k = diffToMonday (WeekDay (ref + tza))"
  define s where "s = dayStart tza (Day (ref + tza) + k)"
  have k: "- 6 \<le> k" "k \<le> 0"
    using diffToMonday_range [of "ref + tza"] by (simp_all add: k_def)
  have s: "s = dayStart tza (Day (ref + tza)) + k * msPerDay"
    by (simp add: s_def dayStart_def algebra_simps)
  have b: "dayStart tza (Day (ref + tza)) \<le> ref" "ref < dayStart tza (Day (ref + tza)) + msPerDay"
    using dayStart_le [of tza ref] by simp_all
  have d1: "Day (ref + k * msPerDay + tza) = Day (ref + tza) + k"
  proof -
    have "ref + k * msPerDay + tza = MakeDate (Day (ref + tza) + k) (TimeWithinDay (ref + tza))"
      using Day_decomp [of "ref + tza"] by (simp add: MakeDate_def algebra_simps)
    then show ?thesis
      using Day_MakeDate TimeWithinDay_bounds by simp
  qed
  have 1: "setDate (fixedZone tza) (Some ref) (Some (DateFromTime (ref + tza) + k)) = Some (ref + k * msPerDay)"
    using assms k by (intro setDate_shift) (simp add: msPerDay_def)
  have sb: "abs s \<le> maxTime" "abs (s + 6 * msPerDay) \<le> maxTime" "abs (s + 7 * msPerDay - 1) \<le> maxTime"
    using assms k b by (simp_all add: s msPerDay_def)
  have 2: "setHours (fixedZone tza) (Some (ref + k * msPerDay)) 0 0 0 0 = Some s"
    using setHours_start [of tza "ref + k * msPerDay"] sb(1)
    unfolding d1 s_def by simp
  have 3: "setDate (fixedZone tza) (Some s) (Some (DateFromTime (s + tza) + 6)) = Some (s + 6 * msPerDay)"
    using sb(2) by (intro setDate_shift)
  have d2: "Day (s + 6 * msPerDay + tza) = Day (ref + tza) + k + 6"
    using Day_dayStart [of tza "Day (ref + tza) + k + 6"]
    by (simp add: s_def dayStart_def algebra_simps)
  have e: "dayStart tza (Day (ref + tza) + k + 6) + msPerDay - 1 = s + 7 * msPerDay - 1"
    by (simp add: s_def dayStart_def algebra_simps)
  have 4: "setHours (fixedZone tza) (Some (s + 6 * msPerDay)) 23 59 59 999 = Some (s + 7 * msPerDay - 1)"
    using setHours_end [of tza "s + 6 * msPerDay"] sb(3)
    unfolding d2 e by simp
  show ?thesis
    by (simp add: getPeriodDates_def Let_def getDay_def getDate_def LocalTime_fixed 1 2 3 4
          flip: diffToMonday_def k_def s_def)
qed


lemma monthStart_next:
  "0 \<le> m \<Longrightarrow> m < 11 \<Longrightarrow> monthStart (m + 1) leap = monthStart m leap + daysInMonth m leap"
  by (simp add: monthStart_def daysInMonth_def) arith

lemma monthStart_last: "monthStart 11 leap + daysInMonth 11 leap = 365 + leap"
  by (simp add: monthStart_def daysInMonth_def)

lemma MakeDay_month:
  "0 \<le> m \<Longrightarrow> m \<le> 11 \<Longrightarrow>
   MakeDay y m dt = DayFromYear y + monthStart m (if DaysInYear y = 366 then 1 else 0) + dt - 1"
  by (simp add: MakeDay_def Let_def)

lemma MakeDay_next_month:
  assumes "0 \<le> m" "m \<le> 11"
  shows "MakeDay y (m + 1) 0 =
     DayFromYear y + monthStart m (if DaysInYear y = 366 then 1 else 0)
       + daysInMonth m (if DaysInYear y = 366 then 1 else 0) - 1"
proof (cases "m = 11")
  case True
  have "MakeDay y 12 0 = DayFromYear (y + 1) - 1"
    by (simp add: MakeDay_def Let_def monthStart_def)
  then show ?thesis
    using True DaysInYear_bounds [of y] monthStart_last [of "if DaysInYear y = 366 then 1 else 0"]
    by (simp add: DayFromYear_Suc split: if_splits)
next
  case False
  then have "m < 11" using assms by simp
  then show ?thesis
    using assms MakeDay_month [of "m + 1" y 0] by (simp add: monthStart_next)
qed

text \<open>First day (as a day number) of the local month and year of a time value.\<close>

definition monthFirstDay :: "int \<Rightarrow> int" where
  "monthFirstDay l = DayFromYear (YearFromTime l) + monthStart (MonthFromTime l) (InLeapYear l)"

lemma monthFirstDay_bounds:
  "monthFirstDay l \<le> Day l \<and> Day l < monthFirstDay l + daysInMonth (MonthFromTime l) (InLeapYear l)"
  using month_bounds [of l] by (simp add: monthFirstDay_def DayWithinYear_def)

lemma monthly_window:
  assumes "abs ref + daysInMonth (MonthFromTime (ref + tza)) (InLeapYear (ref + tza)) * msPerDay
             \<le> maxTime"
      and "\<not> (0 \<le> YearFromTime (ref + tza) \<and> YearFromTime (ref + tza) \<le> 99)"
  shows "getPeriodDates (fixedZone tza) now ''monthly'' (Some (Some ref)) =
           Inr (Some (dayStart tza (monthFirstDay (ref + tza))),
                Some (dayStart tza (monthFirstDay (ref + tza))
                      + daysInMonth (MonthFromTime (ref + tza)) (InLeapYear (ref + tza)) * msPerDay - 1))"
proof -
  define l where "l = ref + tza"
  define n where "n = daysInMonth (MonthFromTime l) (InLeapYear l)"
  define s where "s = dayStart tza (monthFirstDay l)"
  have m: "0 \<le> MonthFromTime l" "MonthFromTime l \<le> 11"
    using MonthFromTime_range [of l] by simp_all
  have n: "28 \<le> n" "n \<le> 31"
    using InLeapYear_cases [of l] by (auto simp: n_def daysInMonth_def)
  have fy: "MakeFullYear (YearFromTime l) = YearFromTime l"
    using assms(2) by (auto simp: MakeFullYear_def l_def)
  have b: "dayStart tza (Day l) \<le> ref" "ref < dayStart tza (Day l) + msPerDay"
    using dayStart_le [of tza ref] by (simp_all add: l_def)
  have f: "monthFirstDay l \<le> Day l" "Day l < monthFirstDay l + n"
    using monthFirstDay_bounds [of l] by (simp_all add: n_def)
  have sr: "s \<le> ref" "ref < s + n * msPerDay"
    using b f by (simp_all add: s_def dayStart_def msPerDay_def)
  have a1: "abs ref + n * msPerDay \<le> maxTime"
    using assms(1) by (simp add: n_def l_def)
  have sb: "abs s \<le> maxTime" "abs (s + n * msPerDay - 1) \<le> maxTime"
    using sr n a1 by (simp_all add: msPerDay_def)
  have d1: "MakeDay (YearFromTime l) (MonthFromTime l) 1 = monthFirstDay l"
    using m by (simp add: MakeDay_month monthFirstDay_def InLeapYear_def)
  have d2: "MakeDay (YearFromTime l) (MonthFromTime l + 1) 0 = monthFirstDay l + n - 1"
    using m by (simp add: MakeDay_next_month monthFirstDay_def InLeapYear_def n_def)
  have 1: "newDate (fixedZone tza) (Some (YearFromTime l)) (Some (MonthFromTime l)) 1 0 0 0 0 = Some s"
    using sb(1)
    by (simp add: newDate_def fy d1 UTC_fixed MakeDate_def MakeTime_def TimeClip_def s_def dayStart_def)
  have e: "MakeDate (monthFirstDay l + n - 1) (MakeTime 23 59 59 999) - tza = s + n * msPerDay - 1"
    by (simp add: MakeDate_def MakeTime_def s_def dayStart_def msPerDay_def algebra_simps)
  have 2: "newDate (fixedZone tza) (Some (YearFromTime l)) (Some (MonthFromTime l + 1)) 0 23 59 59 999
             = Some (s + n * msPerDay - 1)"
    using sb(2) by (simp add: newDate_def fy d2 UTC_fixed e TimeClip_def)
  show ?thesis
    by (simp add: getPeriodDates_def Let_def getFullYear_def getMonth_def LocalTime_fixed 1 2
          flip: l_def n_def s_def)
qed

lemma yearly_window:
  assumes "abs ref + DaysInYear (YearFromTime (ref + tza)) * msPerDay \<le> maxTime"
      and "\<not> (0 \<le> YearFromTime (ref + tza) \<and> YearFromTime (ref + tza) \<le> 99)"
  shows "getPeriodDates (fixedZone tza) now ''yearly'' (Some (Some ref)) =
           Inr (Some (dayStart tza (DayFromYear (YearFromTime (ref + tza)))),
                Some (dayStart tza (DayFromYear (YearFromTime (ref + tza)))
                      + DaysInYear (YearFromTime (ref + tza)) * msPerDay - 1))"
proof -
  define l where "l = ref + tza"
  define y where "y = YearFromTime l"
  define n where "n = DaysInYear y"
  define s where "s = dayStart tza (DayFromYear y)"
  have n: "365 \<le> n" "n \<le> 366"
    using DaysInYear_bounds [of y] by (simp_all add: n_def)
  have fy: "MakeFullYear y = y"
    using assms(2) by (auto simp: MakeFullYear_def l_def y_def)
  have b: "dayStart tza (Day l) \<le> ref" "ref < dayStart tza (Day l) + msPerDay"
    using dayStart_le [of tza ref] by (simp_all add: l_def)
  have f: "DayFromYear y \<le> Day l" "Day l < DayFromYear y + n"
    using year_bounds [of l] by (simp_all add: n_def y_def)
  have sr: "s \<le> ref" "ref < s + n * msPerDay"
    using b f by (simp_all add: s_def dayStart_def msPerDay_def)
  have a1: "abs ref + n * msPerDay \<le> maxTime"
    using assms(1) by (simp add: n_def y_def l_def)
  have sb: "abs s \<le> maxTime" "abs (s + n * msPerDay - 1) \<le> maxTime"
    using sr n a1 by (simp_all add: msPerDay_def)
  have d1: "MakeDay y 0 1 = DayFromYear y"
    by (simp add: MakeDay_def monthStart_def)
  have d2: "MakeDay y 11 31 = DayFromYear y + n - 1"
    using DaysInYear_bounds [of y] by (simp add: MakeDay_def monthStart_def n_def)
  have 1: "newDate (fixedZone tza) (Some y) (Some 0) 1 0 0 0 0 = Some s"
    using sb(1)
    by (simp add: newDate_def fy d1 UTC_fixed MakeDate_def MakeTime_def TimeClip_def s_def dayStart_def)
  have e: "MakeDate (DayFromYear y + n - 1) (MakeTime 23 59 59 999) - tza = s + n * msPerDay - 1"
    by (simp add: MakeDate_def MakeTime_def s_def dayStart_def msPerDay_def algebra_simps)
  have 2: "newDate (fixedZone tza) (Some y) (Some 11) 31 23 59 59 999 = Some (s + n * msPerDay - 1)"
    using sb(2) by (simp add: newDate_def fy d2 UTC_fixed e TimeClip_def)
  show ?thesis
    by (simp add: getPeriodDates_def Let_def getFullYear_def LocalTime_fixed 1 2
          flip: l_def y_def n_def s_def)
qed


lemma DayFromYear_mono: "a \<le> b \<Longrightarrow> DayFromYear a \<le> DayFromYear b"
proof (induction b rule: int_ge_induct)
  case base
  show ?case by simp
next
  case (step i)
  then show ?case
    using DaysInYear_bounds [of i] by (simp add: DayFromYear_Suc)
qed

lemma YearFromTime_unique:
  assumes "DayFromYear y \<le> Day t" and "Day t < DayFromYear (y + 1)"
  shows "YearFromTime t = y"
proof (rule ccontr)
  assume n: "YearFromTime t \<noteq> y"
  have b: "DayFromYear (YearFromTime t) \<le> Day t" "Day t < DayFromYear (YearFromTime t + 1)"
    using year_bounds [of t] by (simp_all add: DayFromYear_Suc)
  show False
  proof (cases "YearFromTime t < y")
    case True
    then have "DayFromYear (YearFromTime t + 1) \<le> DayFromYear y"
      by (intro DayFromYear_mono) simp
    with b(2) assms(1) show False by simp
  next
    case False
    with n have "DayFromYear (y + 1) \<le> DayFromYear (YearFromTime t)"
      by (intro DayFromYear_mono) simp
    with b(1) assms(2) show False by simp
  qed
qed

lemma monthStart_lt_year: "0 \<le> m \<Longrightarrow> m \<le> 11 \<Longrightarrow> 0 \<le> leap \<Longrightarrow> 0 \<le> monthStart m leap \<and> monthStart m leap < 365 + leap"
  by (simp add: monthStart_def)

lemma month_table:
  assumes "0 \<le> m" "m \<le> 11" "leap = 0 \<or> leap = 1"
  shows "(let dwy = monthStart m leap in
      if dwy < 31 then 0
      else if dwy < 59 + leap then 1
      else if dwy < 90 + leap then 2
      else if dwy < 120 + leap then 3
      else if dwy < 151 + leap then 4
      else if dwy < 181 + leap then 5
      else if dwy < 212 + leap then 6
      else if dwy < 243 + leap then 7
      else if dwy < 273 + leap then 8
      else if dwy < 304 + leap then 9
      else if dwy < 334 + leap then 10
      else 11) = m"
  using assms by (auto simp: monthStart_def Let_def) presburger+

text \<open>The first day of the month of \<open>l\<close> is day 1 of the same month and year.\<close>

lemma monthFirstDay_aligned:
  "YearFromTime (monthFirstDay l * msPerDay) = YearFromTime l
   \<and> MonthFromTime (monthFirstDay l * msPerDay) = MonthFromTime l
   \<and> DateFromTime (monthFirstDay l * msPerDay) = 1
   \<and> TimeWithinDay (monthFirstDay l * msPerDay) = 0"
proof -
  define t where "t = monthFirstDay l * msPerDay"
  define y where "y = YearFromTime l"
  have m: "0 \<le> MonthFromTime l" "MonthFromTime l \<le> 11"
    using MonthFromTime_range [of l] by simp_all
  have lp: "InLeapYear l = 0 \<or> InLeapYear l = 1" by (rule InLeapYear_cases)
  have d: "Day t = monthFirstDay l"
    using Day_MakeDate [of 0 "monthFirstDay l"] by (simp add: t_def MakeDate_def msPerDay_def)
  have w: "TimeWithinDay t = 0"
    using TimeWithinDay_MakeDate [of 0 "monthFirstDay l"] by (simp add: t_def MakeDate_def msPerDay_def)
  have ms: "0 \<le> monthStart (MonthFromTime l) (InLeapYear l)"
           "monthStart (MonthFromTime l) (InLeapYear l) < 365 + InLeapYear l"
    using monthStart_lt_year [OF m, of "InLeapYear l"] lp by auto
  have diy: "DaysInYear y = 365 + InLeapYear l"
    using DaysInYear_bounds [of y] by (auto simp: InLeapYear_def y_def)
  have yt: "YearFromTime t = y"
    by (rule YearFromTime_unique)
       (use ms diy in \<open>simp_all add: d monthFirstDay_def DayFromYear_Suc y_def\<close>)
  have il: "InLeapYear t = InLeapYear l"
    by (simp add: InLeapYear_def yt y_def)
  have dwy: "DayWithinYear t = monthStart (MonthFromTime l) (InLeapYear l)"
    by (simp add: DayWithinYear_def d yt monthFirstDay_def y_def)
  have mt: "MonthFromTime t = MonthFromTime l"
    unfolding MonthFromTime_def [of t] dwy il
    using month_table [OF m lp] by (simp add: Let_def)
  have dt: "DateFromTime t = 1"
    by (simp add: DateFromTime_def dwy mt il)
  show ?thesis
    using yt mt dt w by (simp add: t_def y_def)
qed

text \<open>The first day of the year of \<open>l\<close> is day 0 of the same year.\<close>

lemma yearFirstDay_aligned:
  "YearFromTime (DayFromYear (YearFromTime l) * msPerDay) = YearFromTime l
   \<and> DayWithinYear (DayFromYear (YearFromTime l) * msPerDay) = 0
   \<and> TimeWithinDay (DayFromYear (YearFromTime l) * msPerDay) = 0"
proof -
  define y where "y = YearFromTime l"
  define t where "t = DayFromYear y * msPerDay"
  have d: "Day t = DayFromYear y"
    using Day_MakeDate [of 0 "DayFromYear y"] by (simp add: t_def MakeDate_def msPerDay_def)
  have w: "TimeWithinDay t = 0"
    using TimeWithinDay_MakeDate [of 0 "DayFromYear y"] by (simp add: t_def MakeDate_def msPerDay_def)
  have yt: "YearFromTime t = y"
    by (rule YearFromTime_unique)
       (use DaysInYear_bounds [of y] in \<open>simp_all add: d DayFromYear_Suc\<close>)
  have dw: "DayWithinYear t = 0"
    by (simp add: DayWithinYear_def d yt)
  show ?thesis
    using yt w dw unfolding t_def y_def by simp
qed

text \<open>The first day of the week of \<open>l\<close> is a Monday, at most six days before \<open>l\<close>.\<close>

lemma weekFirstDay_aligned:
  "WeekDay ((Day l + diffToMonday (WeekDay l)) * msPerDay) = 1
   \<and> TimeWithinDay ((Day l + diffToMonday (WeekDay l)) * msPerDay) = 0"
proof -
  define k where "k = Day l + diffToMonday (WeekDay l)"
  have d: "Day (k * msPerDay) = k"
    using Day_MakeDate [of 0 k] by (simp add: MakeDate_def msPerDay_def)
  have w: "TimeWithinDay (k * msPerDay) = 0"
    using TimeWithinDay_MakeDate [of 0 k] by (simp add: MakeDate_def msPerDay_def)
  have "(k + 4) mod 7 = 1"
    unfolding k_def diffToMonday_def WeekDay_def by presburger
  then have wd: "WeekDay (k * msPerDay) = 1"
    by (simp add: WeekDay_def d)
  show ?thesis
    using wd w unfolding k_def by simp
qed

section \<open>The period window\<close>

text \<open>
  The period of a given type that contains the local time \<open>l\<close>, as the spec defines it:
  the day of \<open>l\<close>; its week, from Monday; its calendar month; its calendar year.
  \<open>periodFirstDay\<close> is the day number of the first day of that period and
  \<open>periodLength\<close> its fixed duration in milliseconds: 24 hours, 7 days, the length of
  the month, the length of the year.
\<close>

definition periodFirstDay :: "string \<Rightarrow> int \<Rightarrow> int" where
  "periodFirstDay pt l =
     (if pt = ''daily'' then Day l
      else if pt = ''weekly'' then Day l + diffToMonday (WeekDay l)
      else if pt = ''monthly'' then monthFirstDay l
      else DayFromYear (YearFromTime l))"

definition periodLength :: "string \<Rightarrow> int \<Rightarrow> int" where
  "periodLength pt l =
     (if pt = ''daily'' then msPerDay
      else if pt = ''weekly'' then 7 * msPerDay
      else if pt = ''monthly'' then daysInMonth (MonthFromTime l) (InLeapYear l) * msPerDay
      else DaysInYear (YearFromTime l) * msPerDay)"

lemma periodLength_le: "periodLength pt l \<le> 366 * msPerDay"
  using DaysInYear_bounds [of "YearFromTime l"] InLeapYear_cases [of l]
  by (auto simp: periodLength_def daysInMonth_def msPerDay_def)

lemma dayStart_local: "dayStart tza d + tza = d * msPerDay"
  by (simp add: dayStart_def)

text \<open>
  Claim C1, as the code has it. Let the local time zone of the process have a fixed
  offset from UTC, let the period type be one of the four bounded ones, and let the
  reference instant lie at least one period length inside the range of valid Dates; for
  \<open>monthly\<close> and \<open>yearly\<close> let its local year lie outside 0..99 (the Date constructor
  reads such a year as 1900 + year). Then \<open>getPeriodDates\<close> returns two valid Dates:
  the start is local midnight of the first day of the period that contains the
  reference, the end is the last millisecond of that period, one millisecond less than
  the fixed duration after the start, and \<open>start \<le> reference \<le> end\<close>.
\<close>

theorem getPeriodDates_window:
  assumes "pt \<in> {''daily'', ''weekly'', ''monthly'', ''yearly''}"
      and "abs ref + periodLength pt (LocalTime (fixedZone tza) ref) \<le> maxTime"
      and "pt = ''monthly'' \<or> pt = ''yearly'' \<Longrightarrow>
             \<not> (0 \<le> YearFromTime (LocalTime (fixedZone tza) ref)
                \<and> YearFromTime (LocalTime (fixedZone tza) ref) \<le> 99)"
  shows "\<exists>s e. getPeriodDates (fixedZone tza) now pt (Some (Some ref)) = Inr (Some s, Some e)
           \<and> LocalTime (fixedZone tza) s
               = periodFirstDay pt (LocalTime (fixedZone tza) ref) * msPerDay
           \<and> e - s = periodLength pt (LocalTime (fixedZone tza) ref) - 1
           \<and> s \<le> ref \<and> ref \<le> e"
proof -
  define l where "l = ref + tza"
  have b: "dayStart tza (Day l) \<le> ref" "ref < dayStart tza (Day l) + msPerDay"
    using dayStart_le [of tza ref] by (simp_all add: l_def)
  consider (d) "pt = ''daily''" | (w) "pt = ''weekly''"
    | (m) "pt = ''monthly''" | (y) "pt = ''yearly''"
    using assms(1) by auto
  then show ?thesis
  proof cases
    case d
    have r: "abs ref + msPerDay \<le> maxTime"
      using assms(2) d by (simp add: periodLength_def)
    show ?thesis
      unfolding d daily_window [OF r]
      using b by (simp add: periodLength_def periodFirstDay_def dayStart_local LocalTime_fixed l_def)
  next
    case w
    have r: "abs ref + 7 * msPerDay \<le> maxTime"
      using assms(2) w by (simp add: periodLength_def)
    have k: "- 6 \<le> diffToMonday (WeekDay l)" "diffToMonday (WeekDay l) \<le> 0"
      using diffToMonday_range [of l] by simp_all
    have 1: "dayStart tza (Day l + diffToMonday (WeekDay l)) \<le> ref"
            "ref \<le> dayStart tza (Day l + diffToMonday (WeekDay l)) + 7 * msPerDay - 1"
      using b k by (simp_all add: dayStart_def msPerDay_def)
    show ?thesis
      unfolding w weekly_window [OF r]
      using 1 by (simp add: periodLength_def periodFirstDay_def dayStart_local LocalTime_fixed
                    flip: l_def)
  next
    case m
    have r: "abs ref + daysInMonth (MonthFromTime (ref + tza)) (InLeapYear (ref + tza)) * msPerDay
               \<le> maxTime"
      using assms(2) m by (simp add: periodLength_def LocalTime_fixed)
    have ny: "\<not> (0 \<le> YearFromTime (ref + tza) \<and> YearFromTime (ref + tza) \<le> 99)"
      using assms(3) m by (simp add: LocalTime_fixed)
    have f: "monthFirstDay l \<le> Day l"
            "Day l < monthFirstDay l + daysInMonth (MonthFromTime l) (InLeapYear l)"
      using monthFirstDay_bounds [of l] by simp_all
    have 1: "dayStart tza (monthFirstDay l) \<le> ref"
            "ref \<le> dayStart tza (monthFirstDay l)
                     + daysInMonth (MonthFromTime l) (InLeapYear l) * msPerDay - 1"
      using b f by (simp_all add: dayStart_def msPerDay_def)
    show ?thesis
      unfolding m monthly_window [OF r ny]
      using 1 by (simp add: periodLength_def periodFirstDay_def dayStart_local LocalTime_fixed
                    flip: l_def)
  next
    case y
    have r: "abs ref + DaysInYear (YearFromTime (ref + tza)) * msPerDay \<le> maxTime"
      using assms(2) y by (simp add: periodLength_def LocalTime_fixed)
    have ny: "\<not> (0 \<le> YearFromTime (ref + tza) \<and> YearFromTime (ref + tza) \<le> 99)"
      using assms(3) y by (simp add: LocalTime_fixed)
    have f: "DayFromYear (YearFromTime l) \<le> Day l"
            "Day l < DayFromYear (YearFromTime l) + DaysInYear (YearFromTime l)"
      using year_bounds [of l] by simp_all
    have 1: "dayStart tza (DayFromYear (YearFromTime l)) \<le> ref"
            "ref \<le> dayStart tza (DayFromYear (YearFromTime l))
                     + DaysInYear (YearFromTime l) * msPerDay - 1"
      using b f by (simp_all add: dayStart_def msPerDay_def)
    show ?thesis
      unfolding y yearly_window [OF r ny]
      using 1 by (simp add: periodLength_def periodFirstDay_def dayStart_local LocalTime_fixed
                    flip: l_def)
  qed
qed

lemma YearFromTime_2023: "YearFromTime 1700000000000 = 2023"
  by (simp add: YearFromTime_def Day_def msPerDay_def yearFromDay.simps [of 19675 2023] DayFromYear_def)

theorem getPeriodDates_window_witness:
  "''monthly'' \<in> {''daily'', ''weekly'', ''monthly'', ''yearly''}
   \<and> abs 1700000000000 + periodLength ''monthly'' (LocalTime (fixedZone 0) 1700000000000) \<le> maxTime
   \<and> \<not> (0 \<le> YearFromTime (LocalTime (fixedZone 0) 1700000000000)
         \<and> YearFromTime (LocalTime (fixedZone 0) 1700000000000) \<le> 99)
   \<and> (\<exists>s e. getPeriodDates (fixedZone 0) 0 ''monthly'' (Some (Some 1700000000000)) = Inr (Some s, Some e)
           \<and> LocalTime (fixedZone 0) s
               = periodFirstDay ''monthly'' (LocalTime (fixedZone 0) 1700000000000) * msPerDay
           \<and> e - s = periodLength ''monthly'' (LocalTime (fixedZone 0) 1700000000000) - 1
           \<and> s \<le> 1700000000000 \<and> 1700000000000 \<le> e)"
proof -
  have 1: "''monthly'' \<in> {''daily'', ''weekly'', ''monthly'', ''yearly''}" by simp
  have 2: "abs 1700000000000 + periodLength ''monthly'' (LocalTime (fixedZone 0) 1700000000000) \<le> maxTime"
    using periodLength_le [of "''monthly''" "LocalTime (fixedZone 0) 1700000000000"]
    by (simp add: msPerDay_def maxTime_def)
  have 3: "\<not> (0 \<le> YearFromTime (LocalTime (fixedZone 0) 1700000000000)
              \<and> YearFromTime (LocalTime (fixedZone 0) 1700000000000) \<le> 99)"
    by (simp add: LocalTime_fixed YearFromTime_2023)
  show ?thesis
    using getPeriodDates_window [OF 1 2, where now = 0] 1 2 3 by blast
qed

text \<open>
  A zone with one transition, the end of daylight saving in New York on 2023-11-05:
  local time is 4 hours behind UTC before 06:00 UTC of that day and 5 hours behind from
  then on. A local time before 02:00 of that day is read with the earlier offset.
\<close>

definition exDstZone :: timeZone where
  "exDstZone = (\<lambda>t isUTC.
      if isUTC then (if t < 1699164000000 then - 14400000 else - 18000000)
      else (if t < 1699149600000 then - 14400000 else - 18000000))"

lemma getPeriodDates_daily_utc:
  "getPeriodDates (fixedZone 0) 0 ''daily'' (Some (Some 86399999)) = Inr (Some 0, Some 86399999)"
  using daily_window [of 86399999 0 0]
  by (simp add: dayStart_def Day_def msPerDay_def maxTime_def)

lemma getPeriodDates_dst_day:
  "getPeriodDates exDstZone 0 ''daily'' (Some (Some 1699185600000))
     = Inr (Some 1699156800000, Some 1699246799999)"
  by (simp add: getPeriodDates_def setHours_def LocalTime_def UTC_def exDstZone_def Day_def
        MakeDate_def MakeTime_def TimeClip_def msPerDay_def maxTime_def)

lemma getPeriodDates_at_range_end:
  "getPeriodDates (fixedZone 0) 0 ''daily'' (Some (Some 8640000000000000))
     = Inr (Some 8640000000000000, None)"
  by (simp add: getPeriodDates_def setHours_def LocalTime_fixed UTC_fixed Day_def MakeDate_def
        MakeTime_def TimeClip_def msPerDay_def maxTime_def)

lemma MakeDay_1968_start: "MakeDay 1968 0 1 = - 731"
  by (simp add: MakeDay_def DayFromYear_def DaysInYear_def monthStart_def Let_def)

lemma MakeDay_1968_end: "MakeDay 1968 11 31 = - 366"
  by (simp add: MakeDay_def DayFromYear_def DaysInYear_def monthStart_def Let_def)

lemma newDate_68_start: "newDate (fixedZone 0) (Some 68) (Some 0) 1 0 0 0 0 = Some (- 63158400000)"
  by (simp add: newDate_def MakeFullYear_def MakeDay_1968_start UTC_fixed MakeDate_def
        MakeTime_def TimeClip_def msPerDay_def maxTime_def)

lemma newDate_68_end: "newDate (fixedZone 0) (Some 68) (Some 11) 31 23 59 59 999 = Some (- 31536000001)"
  by (simp add: newDate_def MakeFullYear_def MakeDay_1968_end UTC_fixed MakeDate_def
        MakeTime_def TimeClip_def msPerDay_def maxTime_def)

lemma YearFromTime_68: "YearFromTime (- 60000000000000) = 68"
  by code_simp

lemma getPeriodDates_two_digit_year:
  "getPeriodDates (fixedZone 0) 0 ''yearly'' (Some (Some (- 60000000000000)))
     = Inr (Some (- 63158400000), Some (- 31536000001))"
  by (simp add: getPeriodDates_def getFullYear_def LocalTime_fixed YearFromTime_68
        newDate_68_start newDate_68_end)

text \<open>
  Claim C1 as stated fails at four inputs, one for each way the code departs from it.
  In UTC the daily window of the instant 86399999 is \<open>(0, 86399999)\<close>: the reference
  equals the end, and the length is 86399999 ms, not 24 hours. In the zone
  \<open>exDstZone\<close> the daily window of 2023-11-05T12:00Z is 25 hours less one millisecond
  long, since the local day has 25 hours. The yearly window of an instant in the year 68
  is the year 1968 and starts after the instant. At the last valid instant the daily
  window has no valid end.
\<close>

theorem getPeriodDates_half_open_counterexample:
  "getPeriodDates (fixedZone 0) 0 ''daily'' (Some (Some 86399999)) = Inr (Some 0, Some 86399999)
   \<and> \<not> ((86399999::int) < 86399999) \<and> (86399999::int) - 0 \<noteq> msPerDay
   \<and> getPeriodDates exDstZone 0 ''daily'' (Some (Some 1699185600000))
       = Inr (Some 1699156800000, Some 1699246799999)
   \<and> (1699246799999::int) - 1699156800000 = 25 * 3600000 - 1
   \<and> getPeriodDates (fixedZone 0) 0 ''yearly'' (Some (Some (- 60000000000000)))
       = Inr (Some (- 63158400000), Some (- 31536000001))
   \<and> \<not> ((- 63158400000::int) \<le> - 60000000000000)
   \<and> getPeriodDates (fixedZone 0) 0 ''daily'' (Some (Some 8640000000000000))
       = Inr (Some 8640000000000000, None)"
  by (simp add: getPeriodDates_daily_utc getPeriodDates_dst_day getPeriodDates_two_digit_year
        getPeriodDates_at_range_end msPerDay_def)

section \<open>The stats collection\<close>

lemma foldl_sum: "foldl (\<lambda>sum x. sum + f x) a xs = a + sum_list (map f xs)"
  by (induction xs arbitrary: a) (simp_all add: add.assoc)

lemma Math_max_Max: "Math_max x xs = Max (set (x # xs))"
  unfolding Math_max_def by (rule Max.set_eq_fold [symmetric])

lemma statsUpdate_doc:
  "statsQuery uid pt ps row \<Longrightarrow>
   statsUpdate now pe d row = statsDoc uid pt ps pe d (createdAt row) now"
  by (cases row) (simp add: statsQuery_def statsUpdate_def statsDoc_def)

lemma statsQuery_doc: "statsQuery uid pt ps (statsDoc uid pt ps pe d created now)"
  by (simp add: statsQuery_def statsDoc_def)

lemma createdAt_doc: "createdAt (statsDoc uid pt ps pe d created now) = created"
  by (simp add: statsDoc_def)

lemma statsUpdate_again:
  "statsUpdate now2 pe d (statsDoc uid pt ps pe d created now1) = statsDoc uid pt ps pe d created now2"
  by (simp add: statsUpdate_def statsDoc_def)

text \<open>The natural key of a stats row: \<open>(userId, periodType, periodStart)\<close>.\<close>

definition statsKey :: "stats \<Rightarrow> objectId \<times> string \<times> int" where
  "statsKey row = (stats.userId row, periodType row, periodStart row)"

lemma statsQuery_key: "statsQuery uid pt ps row \<longleftrightarrow> statsKey row = (uid, pt, ps)"
  by (auto simp: statsQuery_def statsKey_def)

lemma findOneAndUpdate_None:
  "findOneAndUpdate q u store = None \<longleftrightarrow> (\<forall>row \<in> set store. \<not> q row)"
  by (induction store) (auto split: option.splits)

lemma findOneAndUpdate_Some:
  assumes "findOneAndUpdate q u store = Some (doc, store')"
  shows "\<exists>xs r ys. store = xs @ r # ys \<and> (\<forall>x \<in> set xs. \<not> q x) \<and> q r
           \<and> doc = u r \<and> store' = xs @ u r # ys"
  using assms
proof (induction store arbitrary: store')
  case Nil
  then show ?case by simp
next
  case (Cons a store)
  show ?case
  proof (cases "q a")
    case True
    with Cons.prems have "doc = u a" "store' = u a # store" by auto
    with True show ?thesis by (intro exI [of _ "[]"]) simp
  next
    case False
    with Cons.prems obtain rs' where r: "findOneAndUpdate q u store = Some (doc, rs')" "store' = a # rs'"
      by (auto split: option.splits)
    from Cons.IH [OF r(1)] obtain xs r ys where
      "store = xs @ r # ys" "\<forall>x \<in> set xs. \<not> q x" "q r" "doc = u r" "rs' = xs @ u r # ys"
      by blast
    with False r(2) show ?thesis
      by (intro exI [of _ "a # xs"]) auto
  qed
qed

lemma findOneAndUpdate_prefix:
  "\<forall>x \<in> set xs. \<not> q x \<Longrightarrow> q r \<Longrightarrow>
   findOneAndUpdate q u (xs @ r # ys) = Some (u r, xs @ u r # ys)"
  by (induction xs) auto


text \<open>
  The \<open>createdAt\<close> of the row an upsert at \<open>now\<close> leaves under a key: that of the row
  already stored under the key, or \<open>now\<close> when there is none.
\<close>

definition createdFor :: "int \<Rightarrow> stats list \<Rightarrow> objectId \<Rightarrow> string \<Rightarrow> int \<Rightarrow> int option" where
  "createdFor now store uid pt ps =
     (case find (statsQuery uid pt ps) store of
        None \<Rightarrow> Some now
      | Some old \<Rightarrow> createdAt old)"

lemma createdFor_none:
  assumes "\<forall>x \<in> set store. \<not> statsQuery uid pt ps x"
  shows "createdFor now store uid pt ps = Some now"
proof -
  have "find (statsQuery uid pt ps) store = None"
    using assms by (induction store) auto
  then show ?thesis by (simp add: createdFor_def)
qed

lemma find_prefix: "\<forall>x \<in> set xs. \<not> q x \<Longrightarrow> q r \<Longrightarrow> find q (xs @ r # ys) = Some r"
  by (induction xs) auto

lemma createdFor_found:
  "\<forall>x \<in> set xs. \<not> statsQuery uid pt ps x \<Longrightarrow> statsQuery uid pt ps r \<Longrightarrow>
   createdFor now (xs @ r # ys) uid pt ps = createdAt r"
  by (simp add: createdFor_def find_prefix)

lemma updateOrCreateStats_invalid:
  "\<not> statsValid d \<Longrightarrow>
   updateOrCreateStats now store uid pt ps pe d = (Inl ValidationError, store)"
  by (simp add: updateOrCreateStats_def)

lemma updateOrCreateStats_store:
  assumes "statsValid d"
  shows "(\<exists>xs r ys. store = xs @ r # ys \<and> (\<forall>x \<in> set xs. \<not> statsQuery uid pt ps x)
             \<and> statsQuery uid pt ps r
             \<and> updateOrCreateStats now store uid pt ps pe d
                 = (Inr (statsDoc uid pt ps pe d (createdFor now store uid pt ps) now),
                    xs @ statsDoc uid pt ps pe d (createdFor now store uid pt ps) now # ys))
         \<or> ((\<forall>x \<in> set store. \<not> statsQuery uid pt ps x)
             \<and> updateOrCreateStats now store uid pt ps pe d
                 = (Inr (statsDoc uid pt ps pe d (createdFor now store uid pt ps) now),
                    store @ [statsDoc uid pt ps pe d (createdFor now store uid pt ps) now]))"
proof (cases "findOneAndUpdate (statsQuery uid pt ps) (statsUpdate now pe d) store")
  case None
  then have n: "\<forall>x \<in> set store. \<not> statsQuery uid pt ps x"
    by (simp add: findOneAndUpdate_None)
  have "updateOrCreateStats now store uid pt ps pe d
          = (Inr (statsDoc uid pt ps pe d (createdFor now store uid pt ps) now),
             store @ [statsDoc uid pt ps pe d (createdFor now store uid pt ps) now])"
    using assms None by (simp add: updateOrCreateStats_def createdFor_none [OF n])
  with n show ?thesis by blast
next
  case (Some p)
  obtain doc store' where p: "p = (doc, store')" by (cases p)
  from findOneAndUpdate_Some [OF Some [unfolded p]] obtain xs r ys where
    x: "store = xs @ r # ys" "\<forall>x \<in> set xs. \<not> statsQuery uid pt ps x" "statsQuery uid pt ps r"
       "doc = statsUpdate now pe d r" "store' = xs @ statsUpdate now pe d r # ys"
    by blast
  have c: "createdFor now store uid pt ps = createdAt r"
    unfolding x(1) by (rule createdFor_found [OF x(2,3)])
  have "updateOrCreateStats now store uid pt ps pe d
          = (Inr (statsDoc uid pt ps pe d (createdFor now store uid pt ps) now),
             xs @ statsDoc uid pt ps pe d (createdFor now store uid pt ps) now # ys)"
    using assms Some p x(3,4,5) by (simp add: updateOrCreateStats_def statsUpdate_doc c)
  with x show ?thesis by blast
qed

lemma updateOrCreateStats_result:
  assumes "statsValid d"
  shows "fst (updateOrCreateStats now store uid pt ps pe d)
           = Inr (statsDoc uid pt ps pe d (createdFor now store uid pt ps) now)"
  using updateOrCreateStats_store [OF assms, of store uid pt ps now pe] by auto

text \<open>
  A second upsert of the same values, at any clock reading, on the collection the first
  one left: it finds the row of the first, keeps its \<open>createdAt\<close> and sets \<open>updatedAt\<close>.
\<close>

lemma updateOrCreateStats_second:
  assumes "statsValid d"
  shows "fst (updateOrCreateStats now2 (snd (updateOrCreateStats now1 store uid pt ps pe d))
                uid pt ps pe d)
           = Inr (statsDoc uid pt ps pe d (createdFor now1 store uid pt ps) now2)"
proof -
  let ?c = "createdFor now1 store uid pt ps"
  let ?doc = "statsDoc uid pt ps pe d ?c now1"
  let ?st = "snd (updateOrCreateStats now1 store uid pt ps pe d)"
  have "\<exists>xs ys. (\<forall>x \<in> set xs. \<not> statsQuery uid pt ps x) \<and> ?st = xs @ ?doc # ys"
    using updateOrCreateStats_store [OF assms, of store uid pt ps now1 pe]
    by (elim disjE exE conjE) (simp, blast, simp, metis append_Nil2)
  then obtain xs ys where x: "\<forall>x \<in> set xs. \<not> statsQuery uid pt ps x" "?st = xs @ ?doc # ys"
    by blast
  have "createdFor now2 ?st uid pt ps = ?c"
    unfolding x(2) by (simp add: createdFor_found [OF x(1) statsQuery_doc] createdAt_doc)
  then show ?thesis
    using updateOrCreateStats_result [OF assms, of now2 ?st uid pt ps pe] by simp
qed

lemma updateOrCreateStats_idem:
  "updateOrCreateStats now (snd (updateOrCreateStats now store uid pt ps pe d)) uid pt ps pe d
     = updateOrCreateStats now store uid pt ps pe d"
proof (cases "statsValid d")
  case False
  then show ?thesis by (simp add: updateOrCreateStats_invalid)
next
  case True
  let ?doc = "statsDoc uid pt ps pe d (createdFor now store uid pt ps) now"
  let ?st = "snd (updateOrCreateStats now store uid pt ps pe d)"
  have "\<exists>xs ys. (\<forall>x \<in> set xs. \<not> statsQuery uid pt ps x) \<and> ?st = xs @ ?doc # ys"
    using updateOrCreateStats_store [OF True, of store uid pt ps now pe]
    by (elim disjE exE conjE) (simp, blast, simp, metis append_Nil2)
  then obtain xs ys where x: "\<forall>x \<in> set xs. \<not> statsQuery uid pt ps x" "?st = xs @ ?doc # ys"
    by blast
  have "findOneAndUpdate (statsQuery uid pt ps) (statsUpdate now pe d) ?st = Some (?doc, ?st)"
    unfolding x(2)
    using findOneAndUpdate_prefix [OF x(1) statsQuery_doc, where u = "statsUpdate now pe d" and ys = ys]
    by (simp add: statsUpdate_again)
  then have "updateOrCreateStats now ?st uid pt ps pe d = (Inr ?doc, ?st)"
    using True by (simp add: updateOrCreateStats_def)
  then show ?thesis
    using updateOrCreateStats_result [OF True, of now store uid pt ps pe]
    by (simp add: prod_eq_iff)
qed

lemma statsKey_doc: "statsKey (statsDoc uid pt ps pe d created now) = (uid, pt, ps)"
  by (simp add: statsKey_def statsDoc_def)

lemma updateOrCreateStats_distinct:
  assumes "distinct (map statsKey store)"
  shows "distinct (map statsKey (snd (updateOrCreateStats now store uid pt ps pe d)))"
proof (cases "statsValid d")
  case False
  with assms show ?thesis by (simp add: updateOrCreateStats_invalid)
next
  case True
  let ?doc = "statsDoc uid pt ps pe d (createdFor now store uid pt ps) now"
  from updateOrCreateStats_store [OF True, of store uid pt ps now pe]
  show ?thesis
  proof (elim disjE exE conjE)
    fix xs r ys
    assume x: "store = xs @ r # ys" "statsQuery uid pt ps r"
       and s: "updateOrCreateStats now store uid pt ps pe d = (Inr ?doc, xs @ ?doc # ys)"
    have "statsKey r = statsKey ?doc"
      using x(2) by (simp add: statsQuery_key statsKey_doc)
    moreover have "distinct (map statsKey (xs @ r # ys))"
      using assms x(1) by simp
    ultimately show ?thesis
      unfolding s by simp
  next
    assume n: "\<forall>x \<in> set store. \<not> statsQuery uid pt ps x"
       and s: "updateOrCreateStats now store uid pt ps pe d = (Inr ?doc, store @ [?doc])"
    have "(uid, pt, ps) \<notin> statsKey ` set store"
      using n by (auto simp: statsQuery_key)
    then show ?thesis
      using assms unfolding s by (simp add: statsKey_doc)
  qed
qed

text \<open>
  The states of the stats collection: it starts empty and is written by
  \<open>updateOrCreateStats\<close> and by \<open>Stats.deleteMany\<close> only.
\<close>

inductive reachable :: "stats list \<Rightarrow> bool" where
  empty: "reachable []"
| upsert: "reachable store \<Longrightarrow> reachable (snd (updateOrCreateStats now store uid pt ps pe d))"
| deleteMany: "reachable store \<Longrightarrow> reachable (Stats_deleteMany store uid)"

lemma reachable_distinct: "reachable store \<Longrightarrow> distinct (map statsKey store)"
proof (induction rule: reachable.induct)
  case empty
  show ?case by simp
next
  case (upsert store now uid pt ps pe d)
  then show ?case by (simp add: updateOrCreateStats_distinct)
next
  case (deleteMany store uid)
  then show ?case by (simp add: Stats_deleteMany_def distinct_map_filter)
qed

lemma upsert_replaces:
  assumes "distinct (map statsKey store)" and "statsValid d"
  shows "filter (\<lambda>row. statsKey row = (uid, pt, ps)) (snd (updateOrCreateStats now store uid pt ps pe d))
           = [statsDoc uid pt ps pe d (createdFor now store uid pt ps) now]
       \<and> filter (\<lambda>row. statsKey row \<noteq> (uid, pt, ps)) (snd (updateOrCreateStats now store uid pt ps pe d))
           = filter (\<lambda>row. statsKey row \<noteq> (uid, pt, ps)) store"
proof -
  let ?k = "(uid, pt, ps)"
  let ?doc = "statsDoc uid pt ps pe d (createdFor now store uid pt ps) now"
  from updateOrCreateStats_store [OF assms(2), of store uid pt ps now pe]
  show ?thesis
  proof (elim disjE exE conjE)
    fix xs r ys
    assume x: "store = xs @ r # ys" "statsQuery uid pt ps r"
       and s: "updateOrCreateStats now store uid pt ps pe d = (Inr ?doc, xs @ ?doc # ys)"
    have r: "statsKey r = ?k" using x(2) by (simp add: statsQuery_key)
    have "?k \<notin> statsKey ` set xs" "?k \<notin> statsKey ` set ys"
      using assms(1) r unfolding x(1) by auto
    then have n: "\<forall>x \<in> set xs. statsKey x \<noteq> ?k" "\<forall>x \<in> set ys. statsKey x \<noteq> ?k"
      by (metis imageI)+
    then have f: "filter (\<lambda>row. statsKey row = ?k) xs = []" "filter (\<lambda>row. statsKey row = ?k) ys = []"
      by (simp_all add: filter_empty_conv)
    have g: "filter (\<lambda>row. statsKey row \<noteq> ?k) store
               = filter (\<lambda>row. statsKey row \<noteq> ?k) xs @ filter (\<lambda>row. statsKey row \<noteq> ?k) ys"
      using r by (simp add: x(1))
    show ?thesis
      unfolding s g using f by (simp add: statsKey_doc)
  next
    assume n: "\<forall>x \<in> set store. \<not> statsQuery uid pt ps x"
       and s: "updateOrCreateStats now store uid pt ps pe d = (Inr ?doc, store @ [?doc])"
    have "filter (\<lambda>row. statsKey row = ?k) store = []"
      using n by (simp add: filter_empty_conv statsQuery_key)
    then show ?thesis
      unfolding s by (simp add: statsKey_doc)
  qed
qed

text \<open>
  Claim C9. In every reachable state of the stats collection no two rows share the key
  \<open>(userId, periodType, periodStart)\<close>. An upsert whose values pass the validators
  returns the row made of the key and the new values only (with \<open>updatedAt\<close> the
  instant of the write and \<open>createdAt\<close> the instant at which the row under that key was
  first inserted) and leaves exactly that row under its key, with every row of another
  key unchanged: the row is inserted or every field of the summary in the old row is
  replaced. An upsert whose values fail the validators writes nothing.
\<close>

theorem stats_key_unique_and_replaced:
  assumes "reachable store"
  shows "distinct (map statsKey store)
     \<and> (statsValid d \<longrightarrow>
          fst (updateOrCreateStats now store uid pt ps pe d)
            = Inr (statsDoc uid pt ps pe d (createdFor now store uid pt ps) now)
        \<and> filter (\<lambda>row. statsKey row = (uid, pt, ps)) (snd (updateOrCreateStats now store uid pt ps pe d))
            = [statsDoc uid pt ps pe d (createdFor now store uid pt ps) now]
        \<and> filter (\<lambda>row. statsKey row \<noteq> (uid, pt, ps)) (snd (updateOrCreateStats now store uid pt ps pe d))
            = filter (\<lambda>row. statsKey row \<noteq> (uid, pt, ps)) store)
     \<and> (\<not> statsValid d \<longrightarrow>
          updateOrCreateStats now store uid pt ps pe d = (Inl ValidationError, store))"
  using reachable_distinct [OF assms] upsert_replaces [of store d uid pt ps now pe]
    updateOrCreateStats_result [of d now store uid pt ps pe]
    updateOrCreateStats_invalid [of d now store uid pt ps pe]
  by blast


section \<open>The summary of a period\<close>

text \<open>The summary of a non-empty selection, as the spec spells it out.\<close>

definition specSummary :: "run list \<Rightarrow> statsData" where
  "specSummary sel =
     \<lparr>totalDistance = sum_list (map distance sel),
      totalDuration = sum_list (map duration sel),
      totalRuns = length sel,
      averageSpeed = (if sum_list (map duration sel) = 0 then 0
                      else sum_list (map distance sel) / sum_list (map duration sel) * 3.6),
      longestRun = Max (distance ` set sel),
      longestDuration = Max (duration ` set sel),
      fastestSpeed = Max (run.averageSpeed ` set sel)\<rparr>"

lemma sum_list_nonneg_map: "\<forall>r \<in> set xs. (0::real) \<le> f r \<Longrightarrow> 0 \<le> sum_list (map f xs)"
  by (induction xs) simp_all

lemma Max_image_nonneg:
  assumes "xs \<noteq> []" and "\<forall>r \<in> set xs. (0::real) \<le> f r"
  shows "0 \<le> Max (f ` set xs)"
proof -
  obtain x where "x \<in> set xs" using assms(1) by (cases xs) auto
  then have "f x \<le> Max (f ` set xs)" by simp
  moreover have "0 \<le> f x" using assms(2) \<open>x \<in> set xs\<close> by simp
  ultimately show ?thesis by simp
qed

lemma specSummary_valid:
  assumes "sel \<noteq> []" and "\<forall>r \<in> set sel. runValid r"
  shows "statsValid (specSummary sel)"
proof -
  have d: "0 \<le> sum_list (map distance sel)" "0 \<le> sum_list (map duration sel)"
    using assms(2) by (simp_all add: sum_list_nonneg_map runValid_def)
  have m: "0 \<le> Max (distance ` set sel)" "0 \<le> Max (duration ` set sel)"
          "0 \<le> Max (run.averageSpeed ` set sel)"
    using assms by (simp_all add: Max_image_nonneg runValid_def)
  show ?thesis
    using d m by (simp add: statsValid_def specSummary_def)
qed

lemma calculateStats_empty:
  assumes "getPeriodDates tz now pt (Some d) = Inr (Some s, Some e)"
      and "Run_find runs uid s e = []"
  shows "calculateStats tz now wnow runs store uid pt (Some d) =
           (Inr \<lparr>totalDistance = 0, totalDuration = 0, totalRuns = 0, averageSpeed = 0,
                 longestRun = 0, longestDuration = 0, fastestSpeed = 0,
                 userId = uid, periodType = pt, periodStart = s, periodEnd = e,
                 createdAt = None, updatedAt = None\<rparr>, store)"
  using assms by (simp add: calculateStats_def)

lemma calculateStats_nonempty:
  assumes "getPeriodDates tz now pt (Some d) = Inr (Some s, Some e)"
      and "Run_find runs uid s e \<noteq> []"
      and "\<forall>r \<in> set (Run_find runs uid s e). 0 \<le> duration r"
  shows "calculateStats tz now wnow runs store uid pt (Some d) =
           updateOrCreateStats wnow store uid pt s e (specSummary (Run_find runs uid s e))"
proof -
  obtain r rs where sel: "Run_find runs uid s e = r # rs"
    using assms(2) by (cases "Run_find runs uid s e") auto
  have nn: "0 \<le> sum_list (map duration (r # rs))"
    using assms(3) unfolding sel by (intro sum_list_nonneg_map) simp
  have mx: "Math_max (f r) (map f rs) = Max (f ` set (r # rs))" for f :: "run \<Rightarrow> real"
    by (simp add: Math_max_Max)
  have av: "(if 0 < sum_list (map duration (r # rs))
             then sum_list (map distance (r # rs)) / sum_list (map duration (r # rs)) * 3.6 else 0)
          = (if sum_list (map duration (r # rs)) = 0 then 0
             else sum_list (map distance (r # rs)) / sum_list (map duration (r # rs)) * 3.6)"
    using nn by auto
  show ?thesis
    unfolding calculateStats_def specSummary_def
    using assms(1) av
    by (simp add: sel Let_def foldl_sum mx del: sum_list.Cons list.map set_simps foldl_Cons)
qed


lemma Run_find_idem: "Run_find (Run_find runs uid s e) uid s e = Run_find runs uid s e"
  by (simp add: Run_find_def)

lemma Run_find_subset: "set (Run_find runs uid s e) \<subseteq> set runs"
  by (auto simp: Run_find_def)

text \<open>
  Claim C2, as the code has it. With \<open>(s, e)\<close> the window returned by
  \<open>getPeriodDates\<close>, \<open>calculateStats\<close> aggregates exactly the runs of the owner
  that are not deleted and have \<open>s \<le> startTime \<le> e\<close>, both ends inclusive: its
  result and its write are those of the same call on these runs alone, and the summary
  counts every one of them. (A run that starts at \<open>e\<close> is aggregated.)
\<close>

theorem calculateStats_selection:
  assumes "getPeriodDates tz now pt (Some d) = Inr (Some s, Some e)"
      and "\<forall>r \<in> set runs. runValid r"
      and "sel = filter (\<lambda>r. run.userId r = uid \<and> \<not> isDeleted r
                              \<and> s \<le> startTime r \<and> startTime r \<le> e) runs"
  shows "calculateStats tz now wnow runs store uid pt (Some d)
           = calculateStats tz now wnow sel store uid pt (Some d)
       \<and> (\<exists>summary. fst (calculateStats tz now wnow runs store uid pt (Some d)) = Inr summary
             \<and> totalRuns summary = length sel)"
proof -
  have sel: "sel = Run_find runs uid s e"
    using assms(3) by (simp add: Run_find_def)
  have same: "Run_find sel uid s e = Run_find runs uid s e"
    unfolding sel by (rule Run_find_idem)
  have v: "\<forall>r \<in> set sel. runValid r"
    using assms(2) Run_find_subset [of runs uid s e] unfolding sel by blast
  show ?thesis
  proof (cases "sel = []")
    case True
    have "calculateStats tz now wnow runs store uid pt (Some d)
            = calculateStats tz now wnow sel store uid pt (Some d)"
      using True same sel by (simp add: calculateStats_empty [OF assms(1)])
    moreover have "\<exists>summary. fst (calculateStats tz now wnow runs store uid pt (Some d)) = Inr summary
             \<and> totalRuns summary = length sel"
      using True sel by (simp add: calculateStats_empty [OF assms(1)])
    ultimately show ?thesis by blast
  next
    case False
    have ne: "Run_find runs uid s e \<noteq> []" "Run_find sel uid s e \<noteq> []"
      using False same sel by simp_all
    have du: "\<forall>r \<in> set (Run_find runs uid s e). 0 \<le> duration r"
             "\<forall>r \<in> set (Run_find sel uid s e). 0 \<le> duration r"
      using v same sel by (simp_all add: runValid_def)
    have 1: "calculateStats tz now wnow runs store uid pt (Some d)
               = updateOrCreateStats wnow store uid pt s e (specSummary sel)"
      using calculateStats_nonempty [OF assms(1) ne(1) du(1)] sel by simp
    have 2: "calculateStats tz now wnow sel store uid pt (Some d)
               = updateOrCreateStats wnow store uid pt s e (specSummary sel)"
      using calculateStats_nonempty [OF assms(1) ne(2) du(2)] same sel by simp
    have 3: "fst (updateOrCreateStats wnow store uid pt s e (specSummary sel))
               = Inr (statsDoc uid pt s e (specSummary sel) (createdFor wnow store uid pt s) wnow)"
      using updateOrCreateStats_result specSummary_valid [OF False v] by blast
    have "totalRuns (statsDoc uid pt s e (specSummary sel) (createdFor wnow store uid pt s) wnow) = length sel"
      by (simp add: statsDoc_def specSummary_def)
    with 1 2 3 show ?thesis by simp
  qed
qed

text \<open>
  Claim C3. For a non-empty selection of runs that satisfy the schema, the summary has
  \<open>totalDistance\<close> and \<open>totalDuration\<close> the sums of the distances and durations,
  \<open>totalRuns\<close> the size of the selection, \<open>averageSpeed\<close> the quotient of the two
  totals times 3.6 (metres per second to kilometres per hour), and 0 when the total
  duration is 0, and \<open>longestRun\<close>, \<open>longestDuration\<close>, \<open>fastestSpeed\<close> the
  maxima of \<open>distance\<close>, \<open>duration\<close> and \<open>averageSpeed\<close> over the selection.
\<close>

theorem calculateStats_summary:
  assumes "getPeriodDates tz now pt (Some d) = Inr (Some s, Some e)"
      and "sel = Run_find runs uid s e"
      and "sel \<noteq> []"
      and "\<forall>r \<in> set sel. runValid r"
  shows "\<exists>summary. fst (calculateStats tz now wnow runs store uid pt (Some d)) = Inr summary
       \<and> totalDistance summary = sum_list (map distance sel)
       \<and> totalDuration summary = sum_list (map duration sel)
       \<and> totalRuns summary = length sel
       \<and> statsData.averageSpeed summary =
            (if totalDuration summary = 0 then 0
             else totalDistance summary / totalDuration summary * 3.6)
       \<and> longestRun summary = Max (distance ` set sel)
       \<and> longestDuration summary = Max (duration ` set sel)
       \<and> fastestSpeed summary = Max (run.averageSpeed ` set sel)"
proof -
  have du: "\<forall>r \<in> set (Run_find runs uid s e). 0 \<le> duration r"
    using assms(2,4) by (simp add: runValid_def)
  have 1: "calculateStats tz now wnow runs store uid pt (Some d)
             = updateOrCreateStats wnow store uid pt s e (specSummary sel)"
    using calculateStats_nonempty [OF assms(1) _ du] assms(2,3) by simp
  have 2: "fst (updateOrCreateStats wnow store uid pt s e (specSummary sel))
             = Inr (statsDoc uid pt s e (specSummary sel) (createdFor wnow store uid pt s) wnow)"
    using updateOrCreateStats_result specSummary_valid [OF assms(3,4)] by blast
  show ?thesis
    unfolding 1 2 by (simp add: statsDoc_def specSummary_def)
qed

text \<open>
  Claim C8. When no run of the owner matches the window, \<open>calculateStats\<close> does not
  fail: it returns the summary with every total 0 and with \<open>periodStart\<close> and
  \<open>periodEnd\<close> the computed window. (It is a plain object, not a stored document:
  it has no \<open>createdAt\<close> and no \<open>updatedAt\<close>.)
\<close>

theorem calculateStats_empty_is_zero:
  assumes "getPeriodDates tz now pt (Some d) = Inr (Some s, Some e)"
      and "\<forall>r \<in> set runs. \<not> (run.userId r = uid \<and> \<not> isDeleted r
                                  \<and> s \<le> startTime r \<and> startTime r \<le> e)"
  shows "fst (calculateStats tz now wnow runs store uid pt (Some d)) =
           Inr \<lparr>totalDistance = 0, totalDuration = 0, totalRuns = 0, averageSpeed = 0,
                longestRun = 0, longestDuration = 0, fastestSpeed = 0,
                userId = uid, periodType = pt, periodStart = s, periodEnd = e,
                createdAt = None, updatedAt = None\<rparr>"
proof -
  have "Run_find runs uid s e = []"
    using assms(2) by (auto simp: Run_find_def filter_empty_conv)
  then show ?thesis
    by (simp add: calculateStats_empty [OF assms(1)])
qed

text \<open>
  Claim C10. When no run of the owner matches the window, \<open>calculateStats\<close> leaves the
  stats collection as it is: a row persisted earlier for the same key is neither zeroed
  nor removed.
\<close>

theorem calculateStats_empty_no_write:
  assumes "getPeriodDates tz now pt (Some d) = Inr (Some s, Some e)"
      and "\<forall>r \<in> set runs. \<not> (run.userId r = uid \<and> \<not> isDeleted r
                                  \<and> s \<le> startTime r \<and> startTime r \<le> e)"
  shows "snd (calculateStats tz now wnow runs store uid pt (Some d)) = store"
proof -
  have "Run_find runs uid s e = []"
    using assms(2) by (auto simp: Run_find_def filter_empty_conv)
  then show ?thesis
    by (simp add: calculateStats_empty [OF assms(1)])
qed

lemma getPeriodDates_clock:
  "pt \<noteq> ''all_time'' \<Longrightarrow> getPeriodDates tz now1 pt (Some d) = getPeriodDates tz now2 pt (Some d)"
  by (simp add: getPeriodDates_def Let_def)

lemma calculateStats_clock:
  "pt \<noteq> ''all_time'' \<Longrightarrow>
   calculateStats tz now1 wnow runs store uid pt (Some d)
     = calculateStats tz now2 wnow runs store uid pt (Some d)"
  using getPeriodDates_clock [of pt tz now1 d now2] by (simp add: calculateStats_def)

lemma calculateStats_again:
  "calculateStats tz now wnow runs (snd (calculateStats tz now wnow runs store uid pt rd)) uid pt rd
     = calculateStats tz now wnow runs store uid pt rd"
  unfolding calculateStats_def
  by (simp add: updateOrCreateStats_idem Let_def split: sum.splits prod.splits option.splits list.splits)

text \<open>
  What \<open>calculateStats\<close> does is fixed by the window and the runs: it fails, or returns
  a summary without writing, or is one upsert of values that depend neither on the
  stats collection nor on the instant of the write.
\<close>

lemma calculateStats_shape:
  "(\<exists>err. \<forall>w st. calculateStats tz now w runs st uid pt rd = (Inl err, st))
 \<or> (\<exists>z. \<forall>w st. calculateStats tz now w runs st uid pt rd = (Inr z, st))
 \<or> (\<exists>s e vals. \<forall>w st. calculateStats tz now w runs st uid pt rd
                       = updateOrCreateStats w st uid pt s e vals)"
proof (cases "getPeriodDates tz now pt (Some (case rd of None \<Rightarrow> Some now | Some d \<Rightarrow> d))")
  case (Inl err)
  then have "\<forall>w st. calculateStats tz now w runs st uid pt rd = (Inl err, st)"
    by (simp add: calculateStats_def)
  then show ?thesis by blast
next
  case (Inr p)
  obtain so eo where p: "p = (so, eo)" by (cases p)
  show ?thesis
  proof (cases so)
    case None
    then have "\<forall>w st. calculateStats tz now w runs st uid pt rd = (Inl CastError, st)"
      using Inr p by (simp add: calculateStats_def)
    then show ?thesis by blast
  next
    case s: (Some s)
    show ?thesis
    proof (cases eo)
      case None
      then have "\<forall>w st. calculateStats tz now w runs st uid pt rd = (Inl CastError, st)"
        using Inr p s by (simp add: calculateStats_def)
      then show ?thesis by blast
    next
      case e: (Some e)
      show ?thesis
      proof (cases "Run_find runs uid s e")
        case Nil
        then have "\<exists>z. \<forall>w st. calculateStats tz now w runs st uid pt rd = (Inr z, st)"
          using Inr p s e by (simp add: calculateStats_def)
        then show ?thesis by blast
      next
        case (Cons r rs)
        then have "\<exists>vals. \<forall>w st. calculateStats tz now w runs st uid pt rd
                       = updateOrCreateStats w st uid pt s e vals"
          using Inr p s e by (simp add: calculateStats_def Let_def del: foldl_Cons) blast
        then show ?thesis by blast
      qed
    qed
  qed
qed

text \<open>Two upserts of the same values under the same key, the second after the first.\<close>

lemma updateOrCreateStats_twice:
  "(\<exists>err. fst (updateOrCreateStats w1 store uid pt ps pe d) = Inl err
        \<and> fst (updateOrCreateStats w2 (snd (updateOrCreateStats w1 store uid pt ps pe d))
                 uid pt ps pe d) = Inl err)
 \<or> (\<exists>r1 r2. fst (updateOrCreateStats w1 store uid pt ps pe d) = Inr r1
        \<and> fst (updateOrCreateStats w2 (snd (updateOrCreateStats w1 store uid pt ps pe d))
                 uid pt ps pe d) = Inr r2
        \<and> r2\<lparr>updatedAt := updatedAt r1\<rparr> = r1)"
proof (cases "statsValid d")
  case False
  then show ?thesis by (simp add: updateOrCreateStats_invalid)
next
  case True
  have "(statsDoc uid pt ps pe d (createdFor w1 store uid pt ps) w2)
          \<lparr>updatedAt := updatedAt (statsDoc uid pt ps pe d (createdFor w1 store uid pt ps) w1)\<rparr>
        = statsDoc uid pt ps pe d (createdFor w1 store uid pt ps) w1"
    by (simp add: statsDoc_def)
  then show ?thesis
    using updateOrCreateStats_result [OF True, of w1 store uid pt ps pe]
      updateOrCreateStats_second [OF True, of w2 w1 store uid pt ps pe]
    by simp
qed

lemma calculateStats_twice:
  "(\<exists>err. fst (calculateStats tz now w1 runs store uid pt rd) = Inl err
        \<and> fst (calculateStats tz now w2 runs (snd (calculateStats tz now w1 runs store uid pt rd))
                 uid pt rd) = Inl err)
 \<or> (\<exists>r1 r2. fst (calculateStats tz now w1 runs store uid pt rd) = Inr r1
        \<and> fst (calculateStats tz now w2 runs (snd (calculateStats tz now w1 runs store uid pt rd))
                 uid pt rd) = Inr r2
        \<and> r2\<lparr>updatedAt := updatedAt r1\<rparr> = r1)"
  using calculateStats_shape [of tz now runs uid pt rd]
proof (elim disjE exE)
  fix err
  assume "\<forall>w st. calculateStats tz now w runs st uid pt rd = (Inl err, st)"
  then show ?thesis by simp
next
  fix z
  assume "\<forall>w st. calculateStats tz now w runs st uid pt rd = (Inr z, st)"
  then show ?thesis by simp
next
  fix s e vals
  assume "\<forall>w st. calculateStats tz now w runs st uid pt rd
            = updateOrCreateStats w st uid pt s e vals"
  then show ?thesis
    using updateOrCreateStats_twice [of w1 store uid pt s e vals w2] by simp
qed

text \<open>
  Claim C4, as the code has it. Take two invocations with the same owner, period type,
  explicit reference instant and runs, the second on the stats collection the first
  left. For a period type other than \<open>all_time\<close>, whatever the clock reads, and for
  \<open>all_time\<close> when both invocations read the same instant \<open>now\<close> for the end of the
  window: both fail with the same error, or both return a summary and the two are
  identical in every field except \<open>updatedAt\<close>, which the store sets to the instant of
  each write. When the instant of the write is the same too, the two outputs are
  identical in every field.
\<close>

theorem calculateStats_idempotent:
  assumes "first = calculateStats tz now1 w1 runs store uid pt (Some d)"
      and "second = calculateStats tz now2 w2 runs (snd first) uid pt (Some d)"
  shows "(pt \<noteq> ''all_time'' \<or> now2 = now1 \<longrightarrow>
            (\<exists>err. fst first = Inl err \<and> fst second = Inl err)
          \<or> (\<exists>r1 r2. fst first = Inr r1 \<and> fst second = Inr r2
                \<and> r2\<lparr>updatedAt := updatedAt r1\<rparr> = r1))
       \<and> ((pt \<noteq> ''all_time'' \<or> now2 = now1) \<and> w2 = w1 \<longrightarrow> fst second = fst first)"
proof (intro conjI impI)
  assume "pt \<noteq> ''all_time'' \<or> now2 = now1"
  then have c: "second = calculateStats tz now1 w2 runs (snd first) uid pt (Some d)"
    unfolding assms(2)
    using calculateStats_clock [of pt tz now2 w2 runs "snd first" uid d now1] by auto
  show "(\<exists>err. fst first = Inl err \<and> fst second = Inl err)
          \<or> (\<exists>r1 r2. fst first = Inr r1 \<and> fst second = Inr r2
                \<and> r2\<lparr>updatedAt := updatedAt r1\<rparr> = r1)"
    unfolding c unfolding assms(1)
    by (rule calculateStats_twice)
next
  assume a: "(pt \<noteq> ''all_time'' \<or> now2 = now1) \<and> w2 = w1"
  then have "second = calculateStats tz now1 w1 runs (snd first) uid pt (Some d)"
    unfolding assms(2)
    using calculateStats_clock [of pt tz now2 w1 runs "snd first" uid d now1] by auto
  then show "fst second = fst first"
    unfolding assms(1) by (simp add: calculateStats_again)
qed

section \<open>Sample data, witnesses and counterexamples\<close>

text \<open>A sample run document of the given owner, start time and distance.\<close>

definition exRun :: "objectId \<Rightarrow> int \<Rightarrow> real \<Rightarrow> run" where
  "exRun uid t m =
     \<lparr>run.userId = uid, startTime = t, endTime = t + 600000, distance = m, duration = 600,
      run.averageSpeed = 3, maxSpeed = 4, area = None, totalArea = None, isDeleted = False\<rparr>"

text \<open>
  A sample collection: three runs of owner 7 in the week of 2023-11-13, a run of owner 8,
  a deleted run of owner 7, and a run of owner 7 at the first instant of the next week.
\<close>

definition exRuns :: "run list" where
  "exRuns =
     [exRun 7 1699900000000 1000, exRun 7 1700000000000 2000, exRun 7 1700100000000 1500,
      exRun 8 1700000000000 900, (exRun 7 1700000000000 700)\<lparr>isDeleted := True\<rparr>,
      exRun 7 1700438400000 5000]"

lemma exWeek:
  "getPeriodDates (fixedZone 0) now ''weekly'' (Some (Some 1700000000000))
     = Inr (Some 1699833600000, Some 1700438399999)"
  using weekly_window [of 1700000000000 0 now]
  by (simp add: dayStart_def Day_def WeekDay_def diffToMonday_def msPerDay_def maxTime_def)

lemma exDay:
  "getPeriodDates (fixedZone 0) now ''daily'' (Some (Some 0)) = Inr (Some 0, Some 86399999)"
  using daily_window [of 0 0 now]
  by (simp add: dayStart_def Day_def msPerDay_def maxTime_def)

lemma exRuns_valid: "\<forall>r \<in> set exRuns. runValid r"
  by (simp add: exRuns_def exRun_def runValid_def)

lemma exRuns_find:
  "Run_find exRuns 7 1699833600000 1700438399999
     = [exRun 7 1699900000000 1000, exRun 7 1700000000000 2000, exRun 7 1700100000000 1500]"
  by (simp add: Run_find_def exRuns_def exRun_def)

theorem calculateStats_selection_witness:
  "calculateStats (fixedZone 0) 0 0 exRuns [] 7 ''weekly'' (Some (Some 1700000000000))
     = calculateStats (fixedZone 0) 0 0 [exRun 7 1699900000000 1000, exRun 7 1700000000000 2000,
                           exRun 7 1700100000000 1500] [] 7 ''weekly'' (Some (Some 1700000000000))
   \<and> (\<exists>summary. fst (calculateStats (fixedZone 0) 0 0 exRuns [] 7 ''weekly'' (Some (Some 1700000000000))) = Inr summary
         \<and> totalRuns summary = 3)"
proof -
  have sel: "[exRun 7 1699900000000 1000, exRun 7 1700000000000 2000, exRun 7 1700100000000 1500]
        = filter (\<lambda>r. run.userId r = 7 \<and> \<not> isDeleted r
                       \<and> 1699833600000 \<le> startTime r \<and> startTime r \<le> 1700438399999) exRuns"
    using exRuns_find by (simp add: Run_find_def)
  have l: "length [exRun 7 1699900000000 1000, exRun 7 1700000000000 2000,
                   exRun 7 1700100000000 1500] = 3"
    by simp
  show ?thesis
    using calculateStats_selection [OF exWeek exRuns_valid sel, where now = 0 and wnow = 0 and store = "[]"]
    unfolding l by blast
qed

text \<open>
  Claim C2 as stated (\<open>startTime < end\<close>) fails: the daily window of instant 0 in UTC
  ends at 86399999, and a run that starts at 86399999 is aggregated.
\<close>

theorem calculateStats_half_open_counterexample:
  "getPeriodDates (fixedZone 0) 0 ''daily'' (Some (Some 0)) = Inr (Some 0, Some 86399999)
   \<and> startTime (exRun 1 86399999 1000) = 86399999
   \<and> fst (calculateStats (fixedZone 0) 0 0 [exRun 1 86399999 1000] [] 1 ''daily'' (Some (Some 0)))
       = Inr \<lparr>totalDistance = 1000, totalDuration = 600, totalRuns = 1, averageSpeed = 6,
              longestRun = 1000, longestDuration = 600, fastestSpeed = 3,
              userId = 1, periodType = ''daily'', periodStart = 0, periodEnd = 86399999,
              createdAt = Some 0, updatedAt = Some 0\<rparr>"
  by (simp add: exDay calculateStats_def Run_find_def exRun_def Math_max_def
        updateOrCreateStats_def statsValid_def statsDoc_def)

theorem calculateStats_summary_witness:
  "\<exists>summary. fst (calculateStats (fixedZone 0) 0 0 exRuns [] 7 ''weekly'' (Some (Some 1700000000000))) = Inr summary
      \<and> totalDistance summary = 4500 \<and> totalRuns summary = 3 \<and> longestRun summary = 2000"
proof -
  let ?sel = "[exRun 7 1699900000000 1000, exRun 7 1700000000000 2000, exRun 7 1700100000000 1500]"
  have 1: "?sel = Run_find exRuns 7 1699833600000 1700438399999"
    by (simp add: exRuns_find)
  have 2: "?sel \<noteq> []" by simp
  have 3: "\<forall>r \<in> set ?sel. runValid r"
    by (simp add: exRun_def runValid_def)
  have 4: "sum_list (map distance ?sel) = 4500" "length ?sel = 3" "Max (distance ` set ?sel) = 2000"
    by (simp_all add: exRun_def)
  from calculateStats_summary [OF exWeek 1 2 3, where now = 0 and wnow = 0 and store = "[]"] obtain summary where
    "fst (calculateStats (fixedZone 0) 0 0 exRuns [] 7 ''weekly'' (Some (Some 1700000000000))) = Inr summary"
    "totalDistance summary = sum_list (map distance ?sel)"
    "totalRuns summary = length ?sel"
    "longestRun summary = Max (distance ` set ?sel)"
    by blast
  then show ?thesis
    unfolding 4 by blast
qed

theorem calculateStats_empty_is_zero_witness:
  "fst (calculateStats (fixedZone 0) 0 0 exRuns [] 9 ''weekly'' (Some (Some 1700000000000))) =
     Inr \<lparr>totalDistance = 0, totalDuration = 0, totalRuns = 0, averageSpeed = 0,
          longestRun = 0, longestDuration = 0, fastestSpeed = 0,
          userId = 9, periodType = ''weekly'',
          periodStart = 1699833600000, periodEnd = 1700438399999,
          createdAt = None, updatedAt = None\<rparr>"
proof -
  have "\<forall>r \<in> set exRuns. \<not> (run.userId r = 9 \<and> \<not> isDeleted r
            \<and> 1699833600000 \<le> startTime r \<and> startTime r \<le> 1700438399999)"
    by (simp add: exRuns_def exRun_def)
  from calculateStats_empty_is_zero [OF exWeek this] show ?thesis .
qed

text \<open>
  A row persisted earlier, at the instant 1700200000000, for owner 9 and the week of
  2023-11-13.
\<close>

definition exStale :: stats where
  "exStale = statsDoc 9 ''weekly'' 1699833600000 1700438399999
     \<lparr>totalDistance = 3000, totalDuration = 1200, totalRuns = 2, averageSpeed = 9,
      longestRun = 2000, longestDuration = 700, fastestSpeed = 10\<rparr>
     (Some 1700200000000) 1700200000000"

theorem calculateStats_empty_no_write_witness:
  "snd (calculateStats (fixedZone 0) 0 0 exRuns [exStale] 9 ''weekly'' (Some (Some 1700000000000))) = [exStale]"
proof -
  have "\<forall>r \<in> set exRuns. \<not> (run.userId r = 9 \<and> \<not> isDeleted r
            \<and> 1699833600000 \<le> startTime r \<and> startTime r \<le> 1700438399999)"
    by (simp add: exRuns_def exRun_def)
  from calculateStats_empty_no_write [OF exWeek this] show ?thesis .
qed

text \<open>
  The weekly summary of owner 7 over the sample collection, computed at the instant 5 and
  written at the instant 6 into an empty stats collection, then computed again at 99 and
  written at 100.
\<close>

lemma exFirst:
  "calculateStats (fixedZone 0) 5 6 exRuns [] 7 ''weekly'' (Some (Some 1700000000000))
     = (Inr \<lparr>totalDistance = 4500, totalDuration = 1800, totalRuns = 3, averageSpeed = 9,
              longestRun = 2000, longestDuration = 600, fastestSpeed = 3,
              userId = 7, periodType = ''weekly'',
              periodStart = 1699833600000, periodEnd = 1700438399999,
              createdAt = Some 6, updatedAt = Some 6\<rparr>,
        [\<lparr>totalDistance = 4500, totalDuration = 1800, totalRuns = 3, averageSpeed = 9,
          longestRun = 2000, longestDuration = 600, fastestSpeed = 3,
          userId = 7, periodType = ''weekly'',
          periodStart = 1699833600000, periodEnd = 1700438399999,
          createdAt = Some 6, updatedAt = Some 6\<rparr>])"
  by (simp add: exWeek calculateStats_def exRuns_find exRun_def Math_max_def
        updateOrCreateStats_def statsValid_def statsDoc_def)

lemma exSecond:
  "fst (calculateStats (fixedZone 0) 99 100 exRuns
          (snd (calculateStats (fixedZone 0) 5 6 exRuns [] 7 ''weekly'' (Some (Some 1700000000000))))
          7 ''weekly'' (Some (Some 1700000000000)))
     = Inr \<lparr>totalDistance = 4500, totalDuration = 1800, totalRuns = 3, averageSpeed = 9,
            longestRun = 2000, longestDuration = 600, fastestSpeed = 3,
            userId = 7, periodType = ''weekly'',
            periodStart = 1699833600000, periodEnd = 1700438399999,
            createdAt = Some 6, updatedAt = Some 100\<rparr>"
  unfolding exFirst
  by (simp add: exWeek calculateStats_def exRuns_find exRun_def Math_max_def
        updateOrCreateStats_def statsValid_def statsUpdate_def statsQuery_def)

lemma exAllTime:
  "fst (calculateStats (fixedZone 0) now wnow [] [] 1 ''all_time'' (Some (Some 0)))
     = Inr \<lparr>totalDistance = 0, totalDuration = 0, totalRuns = 0, averageSpeed = 0,
            longestRun = 0, longestDuration = 0, fastestSpeed = 0,
            userId = 1, periodType = ''all_time'', periodStart = 0, periodEnd = now,
            createdAt = None, updatedAt = None\<rparr>"
  by (simp add: calculateStats_def getPeriodDates_def Run_find_def)

theorem calculateStats_idempotent_witness:
  "''weekly'' \<noteq> ''all_time''
   \<and> (\<exists>r1 r2.
         fst (calculateStats (fixedZone 0) 5 6 exRuns [] 7 ''weekly'' (Some (Some 1700000000000)))
           = Inr r1
       \<and> fst (calculateStats (fixedZone 0) 99 100 exRuns
                (snd (calculateStats (fixedZone 0) 5 6 exRuns [] 7 ''weekly'' (Some (Some 1700000000000))))
                7 ''weekly'' (Some (Some 1700000000000)))
           = Inr r2
       \<and> r2\<lparr>updatedAt := updatedAt r1\<rparr> = r1)
   \<and> fst (calculateStats (fixedZone 0) 99 6 exRuns
            (snd (calculateStats (fixedZone 0) 5 6 exRuns [] 7 ''weekly'' (Some (Some 1700000000000))))
            7 ''weekly'' (Some (Some 1700000000000)))
       = fst (calculateStats (fixedZone 0) 5 6 exRuns [] 7 ''weekly'' (Some (Some 1700000000000)))"
proof -
  have h: "''weekly'' \<noteq> ''all_time''" by simp
  have f: "\<not> (\<exists>err. fst (calculateStats (fixedZone 0) 5 6 exRuns [] 7 ''weekly''
                             (Some (Some 1700000000000))) = Inl err \<and> P err)" for P
    by (simp add: exFirst)
  show ?thesis
    using calculateStats_idempotent [OF refl refl, where tz = "fixedZone 0" and ?now1.0 = 5
            and ?w1.0 = 6 and runs = exRuns and store = "[]" and uid = 7 and pt = "''weekly''"
            and d = "Some 1700000000000" and ?now2.0 = 99 and ?w2.0 = 100]
      calculateStats_idempotent [OF refl refl, where tz = "fixedZone 0" and ?now1.0 = 5
            and ?w1.0 = 6 and runs = exRuns and store = "[]" and uid = 7 and pt = "''weekly''"
            and d = "Some 1700000000000" and ?now2.0 = 99 and ?w2.0 = 6]
      h f
    by blast
qed

text \<open>
  Claim C4 as stated fails twice. For \<open>all_time\<close>: with the same owner, reference
  date and (empty) collections, the results at the clock instants 1000 and 2000 differ in
  \<open>periodEnd\<close>. For a bounded period: the weekly summary of owner 7 written at the
  instant 6 and written again at the instant 100 differ in \<open>updatedAt\<close>, with every
  input the same.
\<close>

theorem calculateStats_all_time_counterexample:
  "fst (calculateStats (fixedZone 0) 1000 1000 [] [] 1 ''all_time'' (Some (Some 0)))
     = Inr \<lparr>totalDistance = 0, totalDuration = 0, totalRuns = 0, averageSpeed = 0,
            longestRun = 0, longestDuration = 0, fastestSpeed = 0,
            userId = 1, periodType = ''all_time'', periodStart = 0, periodEnd = 1000,
            createdAt = None, updatedAt = None\<rparr>
   \<and> fst (calculateStats (fixedZone 0) 2000 2000 []
            (snd (calculateStats (fixedZone 0) 1000 1000 [] [] 1 ''all_time'' (Some (Some 0))))
            1 ''all_time'' (Some (Some 0)))
     = Inr \<lparr>totalDistance = 0, totalDuration = 0, totalRuns = 0, averageSpeed = 0,
            longestRun = 0, longestDuration = 0, fastestSpeed = 0,
            userId = 1, periodType = ''all_time'', periodStart = 0, periodEnd = 2000,
            createdAt = None, updatedAt = None\<rparr>
   \<and> fst (calculateStats (fixedZone 0) 5 6 exRuns [] 7 ''weekly'' (Some (Some 1700000000000)))
     = Inr \<lparr>totalDistance = 4500, totalDuration = 1800, totalRuns = 3, averageSpeed = 9,
            longestRun = 2000, longestDuration = 600, fastestSpeed = 3,
            userId = 7, periodType = ''weekly'',
            periodStart = 1699833600000, periodEnd = 1700438399999,
            createdAt = Some 6, updatedAt = Some 6\<rparr>
   \<and> fst (calculateStats (fixedZone 0) 99 100 exRuns
            (snd (calculateStats (fixedZone 0) 5 6 exRuns [] 7 ''weekly'' (Some (Some 1700000000000))))
            7 ''weekly'' (Some (Some 1700000000000)))
     = Inr \<lparr>totalDistance = 4500, totalDuration = 1800, totalRuns = 3, averageSpeed = 9,
            longestRun = 2000, longestDuration = 600, fastestSpeed = 3,
            userId = 7, periodType = ''weekly'',
            periodStart = 1699833600000, periodEnd = 1700438399999,
            createdAt = Some 6, updatedAt = Some 100\<rparr>"
proof -
  have st: "snd (calculateStats (fixedZone 0) 1000 1000 [] [] 1 ''all_time'' (Some (Some 0))) = []"
    by (simp add: calculateStats_def getPeriodDates_def Run_find_def)
  show ?thesis
    unfolding st
  proof (intro conjI)
    show "fst (calculateStats (fixedZone 0) 5 6 exRuns [] 7 ''weekly'' (Some (Some 1700000000000)))
     = Inr \<lparr>totalDistance = 4500, totalDuration = 1800, totalRuns = 3, averageSpeed = 9,
            longestRun = 2000, longestDuration = 600, fastestSpeed = 3,
            userId = 7, periodType = ''weekly'',
            periodStart = 1699833600000, periodEnd = 1700438399999,
            createdAt = Some 6, updatedAt = Some 6\<rparr>"
      unfolding exFirst by (rule fst_conv)
  qed (rule exAllTime exSecond)+
qed

text \<open>Two sets of values for a stats row.\<close>

definition exData1 :: statsData where
  "exData1 = \<lparr>totalDistance = 3000, totalDuration = 1200, totalRuns = 2, averageSpeed = 9,
              longestRun = 2000, longestDuration = 700, fastestSpeed = 10\<rparr>"

definition exData2 :: statsData where
  "exData2 = \<lparr>totalDistance = 4500, totalDuration = 1800, totalRuns = 3, averageSpeed = 9,
              longestRun = 2000, longestDuration = 600, fastestSpeed = 3\<rparr>"

lemma exData1_store:
  "snd (updateOrCreateStats 5 [] 7 ''weekly'' 0 10 exData1)
     = [statsDoc 7 ''weekly'' 0 10 exData1 (Some 5) 5]"
  by (simp add: updateOrCreateStats_def statsValid_def exData1_def)

lemma exData1_created:
  "createdFor 99 [statsDoc 7 ''weekly'' 0 10 exData1 (Some 5) 5] 7 ''weekly'' 0 = Some 5"
  by (simp add: createdFor_def statsQuery_doc createdAt_doc)

theorem stats_key_unique_and_replaced_witness:
  "reachable (snd (updateOrCreateStats 5 [] 7 ''weekly'' 0 10 exData1))
   \<and> statsValid exData2
   \<and> snd (updateOrCreateStats 5 [] 7 ''weekly'' 0 10 exData1)
       = [statsDoc 7 ''weekly'' 0 10 exData1 (Some 5) 5]
   \<and> fst (updateOrCreateStats 99 (snd (updateOrCreateStats 5 [] 7 ''weekly'' 0 10 exData1))
            7 ''weekly'' 0 20 exData2) = Inr (statsDoc 7 ''weekly'' 0 20 exData2 (Some 5) 99)
   \<and> filter (\<lambda>row. statsKey row = (7, ''weekly'', 0))
        (snd (updateOrCreateStats 99 (snd (updateOrCreateStats 5 [] 7 ''weekly'' 0 10 exData1))
            7 ''weekly'' 0 20 exData2)) = [statsDoc 7 ''weekly'' 0 20 exData2 (Some 5) 99]"
proof -
  have r: "reachable (snd (updateOrCreateStats 5 [] 7 ''weekly'' 0 10 exData1))"
    by (intro reachable.upsert reachable.empty)
  have v: "statsValid exData2"
    by (simp add: statsValid_def exData2_def)
  show ?thesis
    using stats_key_unique_and_replaced [OF r, of exData2 99 7 "''weekly''" 0 20] r v
    unfolding exData1_store exData1_created
    by blast
qed

section \<open>The leaderboards\<close>

lemma set_groupKeys: "set (groupKeys ks) = set ks"
  by (simp add: groupKeys_def)

lemma distinct_groupKeys: "distinct (groupKeys ks)"
  by (simp add: groupKeys_def)

lemma groupKeys_distinct: "distinct ks \<Longrightarrow> groupKeys ks = ks"
  by (simp add: groupKeys_def distinct_remdups_id)

lemma length_distancePipeline: "int (length (distancePipeline runs users)) = distanceCount runs"
  by (simp add: distancePipeline_def distanceGroups_def distanceCount_def Let_def)

lemma sorted_distancePipeline:
  "sorted_wrt (\<lambda>a b. distanceItem.totalDistance b \<le> distanceItem.totalDistance a)
     (distancePipeline runs users)"
proof -
  let ?f = "\<lambda>(u, d, n, t). - d :: real"
  let ?gs = "sort_key ?f (distanceGroups runs)"
  have "sorted (map ?f ?gs)" by (rule sorted_sort_key)
  then have "sorted_wrt (\<lambda>x y. ?f x \<le> ?f y) ?gs"
    by (simp add: sorted_wrt_map)
  then have "sorted_wrt (\<lambda>x y. fst (snd y) \<le> fst (snd x)) ?gs"
    by (rule sorted_wrt_mono_rel [rotated]) auto
  then show ?thesis
    unfolding distancePipeline_def sorted_wrt_map
    by (rule sorted_wrt_mono_rel [rotated]) auto
qed

lemma skipLimit_Inr:
  "skipLimit skip lmt xs = Inr ys \<Longrightarrow> 0 \<le> skip \<and> 0 < lmt \<and> ys = take (nat lmt) (drop (nat skip) xs)"
  by (auto simp: skipLimit_def split: if_splits)

lemma getDistanceLeaderboard_Inr:
  assumes "getDistanceLeaderboard runs users pageOpt limitOpt = Inr (lb, pgn)"
  defines "pg \<equiv> (case pageOpt of None \<Rightarrow> DEFAULT_PAGE | Some p \<Rightarrow> p)"
      and "lmt \<equiv> (case limitOpt of None \<Rightarrow> DEFAULT_LIMIT | Some l \<Rightarrow> l)"
  shows "0 \<le> (pg - 1) * min lmt MAX_LIMIT \<and> 0 < min lmt MAX_LIMIT
       \<and> lb = map (\<lambda>(index, item). distanceWithRank ((pg - 1) * min lmt MAX_LIMIT + int index + 1) item)
                (enumerate 0 (take (nat (min lmt MAX_LIMIT))
                   (drop (nat ((pg - 1) * min lmt MAX_LIMIT)) (distancePipeline runs users))))
       \<and> pgn = calculatePagination (distanceCount runs) pg lmt"
proof -
  obtain ys where ys: "skipLimit ((pg - 1) * min lmt MAX_LIMIT) (min lmt MAX_LIMIT)
                         (distancePipeline runs users) = Inr ys"
    using assms(1) unfolding getDistanceLeaderboard_def pg_def lmt_def Let_def
    by (auto split: sum.splits)
  from skipLimit_Inr [OF ys] assms(1) ys show ?thesis
    unfolding getDistanceLeaderboard_def pg_def lmt_def Let_def
    by (auto split: sum.splits)
qed

text \<open>
  Claim C5, as the code has it. The entries returned by \<open>getDistanceLeaderboard\<close> are in
  descending order of \<open>totalDistance\<close>: for positions \<open>i < j\<close> the total at \<open>i\<close> is
  at least the total at \<open>j\<close>. The pipeline sorts on \<open>totalDistance\<close> alone, so nothing
  orders owners with equal totals by their ids.
\<close>

theorem distance_leaderboard_sorted:
  assumes "getDistanceLeaderboard runs users pageOpt limitOpt = Inr (lb, pgn)"
  shows "\<forall>i j. i < j \<and> j < length lb \<longrightarrow>
           distanceItem.totalDistance (lb ! j) \<le> distanceItem.totalDistance (lb ! i)"
proof -
  define pg where "pg = (case pageOpt of None \<Rightarrow> DEFAULT_PAGE | Some p \<Rightarrow> p)"
  define lmt where "lmt = (case limitOpt of None \<Rightarrow> DEFAULT_LIMIT | Some l \<Rightarrow> l)"
  define sk where "sk = (pg - 1) * min lmt MAX_LIMIT"
  define ys where "ys = take (nat (min lmt MAX_LIMIT)) (drop (nat sk) (distancePipeline runs users))"
  have lb: "lb = map (\<lambda>(index, item). distanceWithRank (sk + int index + 1) item) (enumerate 0 ys)"
    using getDistanceLeaderboard_Inr [OF assms] by (simp add: pg_def lmt_def sk_def ys_def)
  have s: "sorted_wrt (\<lambda>a b. distanceItem.totalDistance b \<le> distanceItem.totalDistance a) ys"
    unfolding ys_def by (intro sorted_wrt_take sorted_wrt_drop sorted_distancePipeline)
  have len: "length lb = length ys" by (simp add: lb)
  have nth: "distanceItem.totalDistance (lb ! i) = distanceItem.totalDistance (ys ! i)"
    if "i < length ys" for i
    using that by (simp add: lb nth_enumerate_eq distanceWithRank_def)
  show ?thesis
  proof (intro allI impI)
    fix i j assume ij: "i < j \<and> j < length lb"
    then have "distanceItem.totalDistance (ys ! j) \<le> distanceItem.totalDistance (ys ! i)"
      using s len by (simp add: sorted_wrt_iff_nth_less)
    then show "distanceItem.totalDistance (lb ! j) \<le> distanceItem.totalDistance (lb ! i)"
      using ij len by (simp add: nth)
  qed
qed

lemma calculatePagination_pos:
  "lmt \<noteq> 0 \<Longrightarrow>
   calculatePagination cnt pg lmt =
     \<lparr>page = pg, limit = lmt, totalPages = Some (- (- cnt div lmt)), totalItems = cnt,
      hasNextPage = (pg < - (- cnt div lmt)), hasPrevPage = (1 < pg)\<rparr>"
  by (simp add: calculatePagination_def Let_def ceiling_divide_eq_div)

text \<open>Two owners with the same total distance, the larger id scanned first.\<close>

definition exTie :: "run list" where
  "exTie = [exRun 2 0 5000, exRun 1 0 5000]"

lemma exTie_eval:
  "getDistanceLeaderboard exTie Map.empty None None =
     Inr ([\<lparr>distanceItem.userId = 2, distanceItem.username = None, distanceItem.email = None,
            runColor = None, distanceItem.totalDistance = 5000, distanceItem.totalRuns = 1,
            totalDuration = 600, distanceRanked.rank = 1\<rparr>,
           \<lparr>distanceItem.userId = 1, distanceItem.username = None, distanceItem.email = None,
            runColor = None, distanceItem.totalDistance = 5000, distanceItem.totalRuns = 1,
            totalDuration = 600, distanceRanked.rank = 2\<rparr>],
          \<lparr>page = 1, limit = 10, totalPages = Some 1, totalItems = 2,
           hasNextPage = False, hasPrevPage = False\<rparr>)"
  by (simp add: getDistanceLeaderboard_def exTie_def exRun_def distancePipeline_def
        distanceGroups_def distanceCount_def groupKeys_def skipLimit_def distanceWithRank_def
        calculatePagination_pos DEFAULT_PAGE_def DEFAULT_LIMIT_def MAX_LIMIT_def enumerate_eq_zip
        Let_def)


text \<open>A collection with one run for each of \<open>n\<close> owners.\<close>

definition manyRuns :: "nat \<Rightarrow> run list" where
  "manyRuns n = map (\<lambda>i. exRun i 0 1000) [0..<n]"

lemma manyRuns_count: "distanceCount (manyRuns n) = int n"
proof -
  have f: "filter (\<lambda>r. \<not> isDeleted r) (manyRuns n) = manyRuns n"
    by (simp add: manyRuns_def exRun_def)
  have k: "map run.userId (manyRuns n) = [0..<n]"
    by (simp add: manyRuns_def exRun_def map_idI)
  show ?thesis
    by (simp add: distanceCount_def f k groupKeys_distinct)
qed

text \<open>The entries of one page of the distance leaderboard; none when the call fails.\<close>

definition distancePage :: "run list \<Rightarrow> (objectId \<rightharpoonup> user) \<Rightarrow> int \<Rightarrow> int \<Rightarrow> distanceRanked list" where
  "distancePage runs users p lmt =
     (case getDistanceLeaderboard runs users (Some p) (Some lmt) of
        Inl err \<Rightarrow> []
      | Inr (lb, pgn) \<Rightarrow> lb)"

text \<open>The whole ranking: every projected group with its 1-based position.\<close>

definition distanceRanking :: "run list \<Rightarrow> (objectId \<rightharpoonup> user) \<Rightarrow> distanceRanked list" where
  "distanceRanking runs users =
     map (\<lambda>(index, item). distanceWithRank (int index + 1) item)
         (enumerate 0 (distancePipeline runs users))"

lemma concat_pages:
  "concat (map (\<lambda>p. take n (drop (p * n) xs)) [0..<k]) = take (k * n) xs"
proof (induction k)
  case 0
  show ?case by simp
next
  case (Suc k)
  have "take (k * n) xs @ take n (drop (k * n) xs) = take (k * n + n) xs"
    by (simp add: take_add)
  with Suc show ?case by (simp add: add.commute)
qed

lemma ranked_slice:
  "map (\<lambda>(index, item). distanceWithRank (int (p * n) + int index + 1) item)
       (enumerate 0 (take n (drop (p * n) xs)))
   = take n (drop (p * n) (map (\<lambda>(index, item). distanceWithRank (int index + 1) item) (enumerate 0 xs)))"
proof (rule nth_equalityI)
  show "length (map (\<lambda>(index, item). distanceWithRank (int (p * n) + int index + 1) item)
                 (enumerate 0 (take n (drop (p * n) xs))))
      = length (take n (drop (p * n) (map (\<lambda>(index, item). distanceWithRank (int index + 1) item)
                 (enumerate 0 xs))))"
    by simp
next
  fix i
  assume "i < length (map (\<lambda>(index, item). distanceWithRank (int (p * n) + int index + 1) item)
                       (enumerate 0 (take n (drop (p * n) xs))))"
  then have "i < length xs - p * n \<and> i < n"
    by simp
  then have i: "i < n" "p * n + i < length xs" "p * n \<le> length xs"
    by arith+
  have l: "map (\<lambda>(index, item). distanceWithRank (int (p * n) + int index + 1) item)
             (enumerate 0 (take n (drop (p * n) xs))) ! i
           = distanceWithRank (int (p * n) + int i + 1) (xs ! (p * n + i))"
    using i by (simp add: nth_enumerate_eq)
  have r: "take n (drop (p * n) (map (\<lambda>(index, item). distanceWithRank (int index + 1) item)
             (enumerate 0 xs))) ! i
           = distanceWithRank (int (p * n + i) + 1) (xs ! (p * n + i))"
    using i by (simp add: nth_enumerate_eq)
  show "map (\<lambda>(index, item). distanceWithRank (int (p * n) + int index + 1) item)
             (enumerate 0 (take n (drop (p * n) xs))) ! i
      = take n (drop (p * n) (map (\<lambda>(index, item). distanceWithRank (int index + 1) item)
             (enumerate 0 xs))) ! i"
    unfolding l r by simp
qed

lemma distancePage_slice:
  assumes "0 < n" "int n \<le> MAX_LIMIT"
  shows "distancePage runs users (int (Suc p)) (int n)
           = take n (drop (p * n) (distanceRanking runs users))"
proof -
  have m: "min (int n) MAX_LIMIT = int n" using assms by simp
  have sk: "(int (Suc p) - 1) * int n = int (p * n)" by simp
  have "skipLimit (int (p * n)) (int n) (distancePipeline runs users)
          = Inr (take n (drop (p * n) (distancePipeline runs users)))"
    using assms(1) unfolding skipLimit_def
    by (simp add: nat_mult_distrib not_less mult_nonneg_nonneg)
  then have "distancePage runs users (int (Suc p)) (int n)
          = map (\<lambda>(index, item). distanceWithRank (int (p * n) + int index + 1) item)
              (enumerate 0 (take n (drop (p * n) (distancePipeline runs users))))"
    unfolding distancePage_def getDistanceLeaderboard_def Let_def option.case m sk
    by simp
  then show ?thesis
    by (simp only: ranked_slice distanceRanking_def)
qed

lemma pages_cover:
  fixes N n :: nat
  assumes "0 < n"
  shows "N \<le> nat (- (- int N div int n)) * n"
proof -
  have "- int N = int n * (- int N div int n) + (- int N) mod int n"
    by simp
  moreover have "0 \<le> (- int N) mod int n"
    using assms by simp
  ultimately have "int n * (- int N div int n) \<le> - int N"
    by linarith
  then have 1: "int N \<le> (- (- int N div int n)) * int n"
    by (simp add: algebra_simps)
  have "- int N div int n \<le> 0"
    using assms by (intro div_nonpos_pos_le0) simp_all
  then have 2: "0 \<le> - (- int N div int n)" by simp
  have "int N \<le> int (nat (- (- int N div int n)) * n)"
    using 1 2 by simp
  then show ?thesis by linarith
qed

text \<open>
  With a limit between 1 and \<open>MAX_LIMIT\<close> the clamp changes nothing, and the pages
  from 1 to the reported \<open>totalPages\<close>, one after the other, are the whole ranking.
\<close>

lemma distance_pages_complete:
  assumes "0 < n" "int n \<le> MAX_LIMIT"
  shows "\<exists>lb pgn tp. getDistanceLeaderboard runs users (Some 1) (Some (int n)) = Inr (lb, pgn)
           \<and> totalPages pgn = Some tp
           \<and> concat (map (\<lambda>p. distancePage runs users (int p) (int n)) [1..<Suc (nat tp)])
               = distanceRanking runs users"
proof -
  define N where "N = length (distancePipeline runs users)"
  define tp where "tp = - (- int N div int n)"
  have cnt: "distanceCount runs = int N"
    using length_distancePipeline [of runs users] by (simp add: N_def)
  have m: "min (int n) MAX_LIMIT = int n" using assms by simp
  have sl: "skipLimit 0 (int n) (distancePipeline runs users)
              = Inr (take n (distancePipeline runs users))"
    using assms(1) by (simp add: skipLimit_def)
  have 1: "\<exists>lb. getDistanceLeaderboard runs users (Some 1) (Some (int n))
             = Inr (lb, calculatePagination (int N) 1 (int n))"
    unfolding getDistanceLeaderboard_def Let_def option.case m cnt
    by (simp add: sl)
  have 2: "totalPages (calculatePagination (int N) 1 (int n)) = Some tp"
    using assms(1) by (simp add: calculatePagination_pos tp_def)
  have ps: "distancePage runs users (1 + int p) (int n)
              = take n (drop (p * n) (distanceRanking runs users))" for p
    using distancePage_slice [OF assms, of runs users p] by (simp add: add.commute)
  have "map (\<lambda>p. distancePage runs users (int p) (int n)) [1..<Suc (nat tp)]
          = map (\<lambda>p. take n (drop (p * n) (distanceRanking runs users))) [0..<nat tp]"
    by (rule nth_equalityI) (simp_all add: ps nth_upt del: upt_Suc)
  then have "concat (map (\<lambda>p. distancePage runs users (int p) (int n)) [1..<Suc (nat tp)])
          = take (nat tp * n) (distanceRanking runs users)"
    by (simp only: concat_pages)
  moreover have "length (distanceRanking runs users) \<le> nat tp * n"
    using pages_cover [OF assms(1), of N] by (simp add: distanceRanking_def tp_def N_def)
  ultimately have 3: "concat (map (\<lambda>p. distancePage runs users (int p) (int n)) [1..<Suc (nat tp)])
          = distanceRanking runs users"
    by simp
  from 1 2 3 show ?thesis by blast
qed

text \<open>
  Claim C6 at the input \<open>limit = 200\<close> with 101 owners. The slice is cut with
  \<open>min limit MAX_LIMIT = 100\<close>, but \<open>calculatePagination\<close> receives the limit as
  requested: the response reports \<open>limit = 200\<close>, \<open>totalPages = 1\<close> and no next page,
  while page 1, the only page up to \<open>totalPages\<close>, holds 100 of the 101 entries of the
  ranking.
\<close>

theorem distance_leaderboard_pages_drop_groups:
  "\<exists>lb pgn. getDistanceLeaderboard (manyRuns 101) Map.empty (Some 1) (Some 200) = Inr (lb, pgn)
      \<and> length lb = 100 \<and> totalItems pgn = 101 \<and> limit pgn = 200
      \<and> totalPages pgn = Some 1 \<and> hasNextPage pgn = False
      \<and> length (concat (map (\<lambda>p. distancePage (manyRuns 101) Map.empty (int p) 200)
                      [1..<Suc (nat 1)])) = 100
      \<and> length (distanceRanking (manyRuns 101) Map.empty) = 101"
proof -
  have n: "length (distancePipeline (manyRuns 101) Map.empty) = 101"
    using length_distancePipeline [of "manyRuns 101" Map.empty] by (simp add: manyRuns_count)
  have e: "\<exists>lb pgn. getDistanceLeaderboard (manyRuns 101) Map.empty (Some 1) (Some 200) = Inr (lb, pgn)
      \<and> length lb = 100 \<and> totalItems pgn = 101 \<and> limit pgn = 200
      \<and> totalPages pgn = Some 1 \<and> hasNextPage pgn = False"
    by (simp add: getDistanceLeaderboard_def Let_def skipLimit_def MAX_LIMIT_def n
          manyRuns_count calculatePagination_pos)
  then have p: "length (distancePage (manyRuns 101) Map.empty 1 200) = 100"
    by (auto simp: distancePage_def)
  have r: "length (distanceRanking (manyRuns 101) Map.empty) = 101"
    by (simp add: distanceRanking_def n)
  from e p r show ?thesis by simp
qed

lemma sum_list_pos_map:
  "xs \<noteq> [] \<Longrightarrow> \<forall>r \<in> set xs. (0::real) < f r \<Longrightarrow> 0 < sum_list (map f xs)"
proof (induction xs)
  case Nil
  then show ?case by simp
next
  case (Cons a xs)
  show ?case
  proof (cases "xs = []")
    case True
    with Cons.prems show ?thesis by simp
  next
    case False
    with Cons show ?thesis by (simp add: add_pos_pos)
  qed
qed

lemma distinct_map_fst_sort_key:
  "distinct (map fst (sort_key f xs)) = distinct (map fst xs)"
  by (simp add: distinct_map)

lemma areaMatch_pos: "areaMatch r \<Longrightarrow> 0 < areaOf r"
  by (auto simp: areaMatch_def areaOf_def split: option.splits)

lemma areaGroups_keys: "map fst (areaGroups runs) = groupKeys (map run.userId (filter areaMatch runs))"
  by (simp add: areaGroups_def Let_def comp_def)

lemma areaGroups_entry:
  assumes "(u, a, n, d) \<in> set (areaGroups runs)"
  shows "(\<exists>r \<in> set runs. run.userId r = u \<and> areaMatch r)
       \<and> a = sum_list (map areaOf (filter (\<lambda>r. run.userId r = u \<and> areaMatch r) runs))
       \<and> 0 < a"
proof -
  let ?g = "filter (\<lambda>r. run.userId r = u) (filter areaMatch runs)"
  have u: "u \<in> set (map run.userId (filter areaMatch runs))"
    and a: "a = sum_list (map areaOf ?g)"
    using assms by (auto simp: areaGroups_def Let_def set_groupKeys)
  from u obtain r where r: "r \<in> set runs" "run.userId r = u" "areaMatch r" by auto
  then have ne: "?g \<noteq> []" by (auto simp: filter_empty_conv)
  have g: "?g = filter (\<lambda>r. run.userId r = u \<and> areaMatch r) runs"
    by (simp add: conj_commute)
  have "0 < sum_list (map areaOf ?g)"
    using ne by (rule sum_list_pos_map) (simp add: areaMatch_pos)
  with r a g show ?thesis by auto
qed

lemma in_set_map_filter:
  "y \<in> set (List.map_filter f xs) \<longleftrightarrow> (\<exists>x \<in> set xs. f x = Some y)"
  by (auto simp: List.map_filter_def image_iff)

lemma areaPipeline_item:
  assumes "e \<in> set (areaPipeline runs users)"
  shows "(areaItem.userId e, totalAreaCovered e, areaItem.totalRuns e, areaItem.totalDistance e)
           \<in> set (areaGroups runs) \<and> users (areaItem.userId e) \<noteq> None"
  using assms
  by (auto simp: areaPipeline_def in_set_map_filter split: option.splits)

lemma distinct_areaPipeline: "distinct (map areaItem.userId (areaPipeline runs users))"
proof -
  let ?f = "\<lambda>(u, a, n, d). - a :: real"
  let ?p = "\<lambda>(u, a, n, d).
          (case users u of
             None \<Rightarrow> None
           | Some usr \<Rightarrow>
               Some \<lparr>areaItem.userId = u, username = user.username usr, email = user.email usr,
                     totalAreaCovered = a, totalRuns = n, totalDistance = d,
                     averageArea = a / real n\<rparr>)"
  let ?gs = "sort_key ?f (areaGroups runs)"
  have d: "distinct (map fst ?gs)"
    by (simp add: distinct_map_fst_sort_key areaGroups_keys distinct_groupKeys)
  have m: "map areaItem.userId (List.map_filter ?p ?gs) = map fst (filter (\<lambda>g. ?p g \<noteq> None) ?gs)"
    unfolding List.map_filter_def
    by (auto simp: comp_def split: option.splits intro!: map_cong)
  show ?thesis
    unfolding areaPipeline_def m
    using d by (rule distinct_map_filter)
qed


lemma getAreaLeaderboard_Inr:
  assumes "getAreaLeaderboard runs users pageOpt limitOpt = Inr (lb, pgn)"
  shows "\<exists>sk n. lb = map (\<lambda>(index, item). areaWithRank (sk + int index + 1) item)
                      (enumerate 0 (take n (drop (nat sk) (areaPipeline runs users))))"
proof -
  define pg where "pg = (case pageOpt of None \<Rightarrow> DEFAULT_PAGE | Some p \<Rightarrow> p)"
  define lmt where "lmt = (case limitOpt of None \<Rightarrow> DEFAULT_LIMIT | Some l \<Rightarrow> l)"
  obtain ys where ys: "skipLimit ((pg - 1) * min lmt MAX_LIMIT) (min lmt MAX_LIMIT)
                         (areaPipeline runs users) = Inr ys"
    using assms unfolding getAreaLeaderboard_def pg_def lmt_def Let_def
    by (auto split: sum.splits)
  have "lb = map (\<lambda>(index, item). areaWithRank ((pg - 1) * min lmt MAX_LIMIT + int index + 1) item)
               (enumerate 0 ys)"
    using assms ys unfolding getAreaLeaderboard_def pg_def lmt_def Let_def
    by (auto split: sum.splits)
  with skipLimit_Inr [OF ys] show ?thesis by blast
qed

lemma map_ranked_userId:
  "map areaItem.userId (map (\<lambda>(index, item). areaWithRank (sk + int index + 1) item) (enumerate 0 ys))
     = map areaItem.userId ys"
  by (rule nth_equalityI) (simp_all add: nth_enumerate_eq areaWithRank_def)

text \<open>
  Claim C7, as the code has it. \<open>getAreaLeaderboard\<close> groups by owner: no two entries
  have the same \<open>userId\<close>. Every entry belongs to an owner with at least one eligible
  run (not deleted, \<open>totalArea\<close> present and positive), its \<open>totalAreaCovered\<close> is the
  sum of \<open>totalArea\<close> over that owner's eligible runs, and it is positive: an owner
  without an eligible run has no entry.
\<close>

theorem area_leaderboard_by_owner:
  assumes "getAreaLeaderboard runs users pageOpt limitOpt = Inr (lb, pgn)"
  shows "distinct (map areaItem.userId lb)
       \<and> (\<forall>e \<in> set lb.
            (\<exists>r \<in> set runs. run.userId r = areaItem.userId e \<and> areaMatch r)
          \<and> totalAreaCovered e
               = sum_list (map areaOf (filter (\<lambda>r. run.userId r = areaItem.userId e \<and> areaMatch r) runs))
          \<and> 0 < totalAreaCovered e)"
proof -
  obtain sk n where lb:
    "lb = map (\<lambda>(index, item). areaWithRank (sk + int index + 1) item)
            (enumerate 0 (take n (drop (nat sk) (areaPipeline runs users))))"
    using getAreaLeaderboard_Inr [OF assms] by blast
  define ys where "ys = take n (drop (nat sk) (areaPipeline runs users))"
  have sub: "set ys \<subseteq> set (areaPipeline runs users)"
    unfolding ys_def by (meson in_set_takeD in_set_dropD subsetI)
  have "distinct (map areaItem.userId ys)"
    unfolding ys_def take_map [symmetric] drop_map [symmetric]
    by (intro distinct_take distinct_drop distinct_areaPipeline)
  then have 1: "distinct (map areaItem.userId lb)"
    unfolding lb ys_def [symmetric] map_ranked_userId .
  have 2: "(\<exists>r \<in> set runs. run.userId r = areaItem.userId e \<and> areaMatch r)
          \<and> totalAreaCovered e
               = sum_list (map areaOf (filter (\<lambda>r. run.userId r = areaItem.userId e \<and> areaMatch r) runs))
          \<and> 0 < totalAreaCovered e" if e: "e \<in> set lb" for e
  proof -
    from e obtain i where i: "i < length lb" "lb ! i = e"
      by (auto simp: in_set_conv_nth)
    have li: "i < length ys"
      using i(1) unfolding lb ys_def [symmetric] by simp
    then have "lb ! i = areaWithRank (sk + int i + 1) (ys ! i)"
      unfolding lb ys_def [symmetric] by (simp add: nth_enumerate_eq)
    then have "areaItem.userId e = areaItem.userId (ys ! i)"
        "totalAreaCovered e = totalAreaCovered (ys ! i)"
      using i(2) by (auto simp: areaWithRank_def)
    with li obtain y where y: "y \<in> set ys" "areaItem.userId e = areaItem.userId y"
        "totalAreaCovered e = totalAreaCovered y"
      using nth_mem by blast
    have "(areaItem.userId y, totalAreaCovered y, areaItem.totalRuns y, areaItem.totalDistance y)
            \<in> set (areaGroups runs)"
      using areaPipeline_item [of y runs users] y(1) sub by blast
    from areaGroups_entry [OF this] show ?thesis
      unfolding y(2,3) .
  qed
  from 1 2 show ?thesis by blast
qed

text \<open>Two runs of one owner in two areas, and that owner's user document.\<close>

definition exAreaRuns :: "run list" where
  "exAreaRuns =
     [(exRun 1 0 1000)\<lparr>area := Some ''Park'', totalArea := Some 10\<rparr>,
      (exRun 1 0 2000)\<lparr>area := Some ''River'', totalArea := Some 20\<rparr>]"

definition exUsers :: "objectId \<rightharpoonup> user" where
  "exUsers = [1 \<mapsto> \<lparr>user.username = Some ''alice'', user.email = ''alice@example.com'',
                      user.runColor = ''#FF6B6B''\<rparr>]"

lemma exArea_eval:
  "getAreaLeaderboard exAreaRuns exUsers None None =
     Inr ([\<lparr>areaItem.userId = 1, areaItem.username = Some ''alice'',
            areaItem.email = ''alice@example.com'', totalAreaCovered = 30,
            areaItem.totalRuns = 2, areaItem.totalDistance = 3000, averageArea = 15,
            areaRanked.rank = 1\<rparr>],
          \<lparr>page = 1, limit = 10, totalPages = Some 1, totalItems = 1,
           hasNextPage = False, hasPrevPage = False\<rparr>)
   \<and> map area exAreaRuns = [Some ''Park'', Some ''River'']"
  by (simp add: getAreaLeaderboard_def exAreaRuns_def exUsers_def exRun_def areaPipeline_def
        areaGroups_def areaCount_def areaMatch_def areaOf_def groupKeys_def skipLimit_def
        areaWithRank_def List.map_filter_def
        calculatePagination_pos DEFAULT_PAGE_def DEFAULT_LIMIT_def MAX_LIMIT_def enumerate_eq_zip
        Let_def)

text \<open>
  Claim C7 as stated (grouping by area label) fails: two runs of one owner with the area
  labels Park and River give a single entry, keyed by the owner, with the two areas added.
\<close>

theorem area_leaderboard_label_counterexample:
  "getAreaLeaderboard exAreaRuns exUsers None None =
     Inr ([\<lparr>areaItem.userId = 1, areaItem.username = Some ''alice'',
            areaItem.email = ''alice@example.com'', totalAreaCovered = 30,
            areaItem.totalRuns = 2, areaItem.totalDistance = 3000, averageArea = 15,
            areaRanked.rank = 1\<rparr>],
          \<lparr>page = 1, limit = 10, totalPages = Some 1, totalItems = 1,
           hasNextPage = False, hasPrevPage = False\<rparr>)
   \<and> map area exAreaRuns = [Some ''Park'', Some ''River'']"
  by (rule exArea_eval)

theorem area_leaderboard_by_owner_witness:
  "\<exists>lb pgn. getAreaLeaderboard exAreaRuns exUsers None None = Inr (lb, pgn)
     \<and> distinct (map areaItem.userId lb)
     \<and> (\<forall>e \<in> set lb.
            (\<exists>r \<in> set exAreaRuns. run.userId r = areaItem.userId e \<and> areaMatch r)
          \<and> totalAreaCovered e
               = sum_list (map areaOf (filter (\<lambda>r. run.userId r = areaItem.userId e \<and> areaMatch r) exAreaRuns))
          \<and> 0 < totalAreaCovered e)
     \<and> map totalAreaCovered lb = [30]"
proof -
  obtain lb pgn where e: "getAreaLeaderboard exAreaRuns exUsers None None = Inr (lb, pgn)"
     and m: "map totalAreaCovered lb = [30]"
    using exArea_eval by auto
  have a: "distinct (map areaItem.userId lb)
     \<and> (\<forall>e \<in> set lb.
            (\<exists>r \<in> set exAreaRuns. run.userId r = areaItem.userId e \<and> areaMatch r)
          \<and> totalAreaCovered e
               = sum_list (map areaOf (filter (\<lambda>r. run.userId r = areaItem.userId e \<and> areaMatch r) exAreaRuns))
          \<and> 0 < totalAreaCovered e)"
    by (rule area_leaderboard_by_owner [OF e])
  show ?thesis
    by (intro exI [of _ lb] exI [of _ pgn] conjI e m conjunct1 [OF a] conjunct2 [OF a])
qed

text \<open>
  Claim C5 as stated (equal totals ordered by ascending key) fails: owners 2 and 1 tie at
  5000 and owner 2 is ranked first.
\<close>

theorem distance_leaderboard_tie_counterexample:
  "getDistanceLeaderboard exTie Map.empty None None =
     Inr ([\<lparr>distanceItem.userId = 2, distanceItem.username = None, distanceItem.email = None,
            runColor = None, distanceItem.totalDistance = 5000, distanceItem.totalRuns = 1,
            totalDuration = 600, distanceRanked.rank = 1\<rparr>,
           \<lparr>distanceItem.userId = 1, distanceItem.username = None, distanceItem.email = None,
            runColor = None, distanceItem.totalDistance = 5000, distanceItem.totalRuns = 1,
            totalDuration = 600, distanceRanked.rank = 2\<rparr>],
          \<lparr>page = 1, limit = 10, totalPages = Some 1, totalItems = 2,
           hasNextPage = False, hasPrevPage = False\<rparr>)"
  by (rule exTie_eval)

text \<open>Three owners: two tie at 5000, one leads with 7000.\<close>

definition exBoard :: "run list" where
  "exBoard = [exRun 2 0 5000, exRun 1 0 5000, exRun 3 0 7000]"

theorem distance_leaderboard_sorted_witness:
  "\<exists>lb pgn. getDistanceLeaderboard exBoard Map.empty None None = Inr (lb, pgn)
     \<and> map distanceItem.totalDistance lb = [7000, 5000, 5000]
     \<and> (\<forall>i j. i < j \<and> j < length lb \<longrightarrow>
           distanceItem.totalDistance (lb ! j) \<le> distanceItem.totalDistance (lb ! i))"
proof -
  have "\<exists>lb pgn. getDistanceLeaderboard exBoard Map.empty None None = Inr (lb, pgn)
          \<and> map distanceItem.totalDistance lb = [7000, 5000, 5000]"
    by (simp add: getDistanceLeaderboard_def exBoard_def exRun_def distancePipeline_def
        distanceGroups_def distanceCount_def groupKeys_def skipLimit_def distanceWithRank_def
        calculatePagination_pos DEFAULT_PAGE_def DEFAULT_LIMIT_def MAX_LIMIT_def enumerate_eq_zip
        Let_def)
  then obtain lb pgn where e: "getDistanceLeaderboard exBoard Map.empty None None = Inr (lb, pgn)"
     and m: "map distanceItem.totalDistance lb = [7000, 5000, 5000]"
    by auto
  show ?thesis
    by (intro exI [of _ lb] exI [of _ pgn] conjI e m distance_leaderboard_sorted [OF e])
qed

end
